theory Spec2Isabelle
  imports Main
begin

section \<open>Data layer\<close>

text \<open>
  The models module (\<open>blog/models.py\<close>) is not among the sources.  The entities and
  their fields are the ones the spec's data model lists and the views use: a relational
  link is the primary key of the row it points to, and a table is the list of its rows.
  Time stamps are integers.
\<close>

type_synonym datetime = int

text \<open>
  Modelled from the spec: the model \<open>User\<close> of the missing models module, with
  \<open>username\<close>, \<open>first_name\<close>, \<open>last_name\<close> and \<open>email\<close>.
\<close>

record User =
  user_pk :: nat
  username :: string
  first_name :: string
  last_name :: string
  email :: string

text \<open>
  Modelled from the spec: the model \<open>Category\<close> of the missing models module, with
  \<open>slug\<close> and \<open>is_published\<close>.
\<close>

record Category =
  category_pk :: nat
  slug :: string
  category_is_published :: bool

text \<open>
  Modelled from the spec: the model \<open>Post\<close> of the missing models module, with
  \<open>title\<close>, \<open>text\<close>, \<open>pub_date\<close>, \<open>category\<close>, \<open>location\<close>, \<open>image\<close>,
  \<open>author\<close> and \<open>is_published\<close>; only the location is optional.
\<close>

record Post =
  post_pk :: nat
  title :: string
  post_text :: string
  pub_date :: datetime
  category_id :: nat
  location_id :: "nat option"
  post_image :: string
  author_id :: nat
  is_published :: bool

text \<open>
  Modelled from the spec: the model \<open>Comment\<close> of the missing models module, with
  \<open>text\<close>, \<open>author\<close> and \<open>post\<close>.
\<close>

record Comment =
  comment_pk :: nat
  comment_text :: string
  comment_author_id :: nat
  comment_post_id :: nat

text \<open>The state of the database: one table for each model.\<close>

record db =
  users :: "User list"
  categories :: "Category list"
  posts :: "Post list"
  comments :: "Comment list"

text \<open>
  Modelled from the spec: the constraints the schema puts on a database state.
  Primary keys are unique, every link points to a row that exists, and the two
  fields by which the views look rows up (\<open>username\<close> of a user, \<open>slug\<close> of a
  category) identify their row.
\<close>

definition wf_db :: "db \<Rightarrow> bool" where
  "wf_db d \<longleftrightarrow>
     distinct (map user_pk (users d)) \<and>
     distinct (map username (users d)) \<and>
     distinct (map category_pk (categories d)) \<and>
     distinct (map slug (categories d)) \<and>
     distinct (map post_pk (posts d)) \<and>
     distinct (map comment_pk (comments d)) \<and>
     (\<forall>p \<in> set (posts d). category_id p \<in> category_pk ` set (categories d)) \<and>
     (\<forall>p \<in> set (posts d). author_id p \<in> user_pk ` set (users d)) \<and>
     (\<forall>c \<in> set (comments d). comment_post_id c \<in> post_pk ` set (posts d)) \<and>
     (\<forall>c \<in> set (comments d). comment_author_id c \<in> user_pk ` set (users d))"

section \<open>Framework: queries, exceptions, requests and responses\<close>

text \<open>
  The exceptions that cross a view.  None of the views catches one: the framework
  turns \<open>Http404\<close> into a 404 response and any other into a 500 response.
\<close>

datatype exn =
    Http404 | DoesNotExist | MultipleObjectsReturned | ImproperlyConfigured
  | InvalidPage | ValueError

text \<open>\<open>QuerySet.get\<close>: exactly one row, or an exception.\<close>

definition QuerySet_get :: "'a list \<Rightarrow> exn + 'a" where
  "QuerySet_get rows =
     (case rows of
        [] \<Rightarrow> Inl DoesNotExist
      | [x] \<Rightarrow> Inr x
      | _ \<Rightarrow> Inl MultipleObjectsReturned)"

text \<open>\<open>get_object_or_404(klass, **lookup)\<close>: \<open>DoesNotExist\<close> becomes \<open>Http404\<close>.\<close>

definition get_object_or_404 :: "'a list \<Rightarrow> ('a \<Rightarrow> bool) \<Rightarrow> exn + 'a" where
  "get_object_or_404 klass lookup =
     (case QuerySet_get (filter lookup klass) of
        Inl DoesNotExist \<Rightarrow> Inl Http404
      | r \<Rightarrow> r)"

text \<open>Following a relational link from a row fetches the row it points to.\<close>

definition Post_category :: "db \<Rightarrow> Post \<Rightarrow> exn + Category" where
  "Post_category d p = QuerySet_get (filter (\<lambda>c. category_pk c = category_id p) (categories d))"

definition Post_author :: "db \<Rightarrow> Post \<Rightarrow> exn + User" where
  "Post_author d p = QuerySet_get (filter (\<lambda>u. user_pk u = author_id p) (users d))"

definition Comment_author :: "db \<Rightarrow> Comment \<Rightarrow> exn + User" where
  "Comment_author d c = QuerySet_get (filter (\<lambda>u. user_pk u = comment_author_id c) (users d))"

definition Comment_post :: "db \<Rightarrow> Comment \<Rightarrow> exn + Post" where
  "Comment_post d c = QuerySet_get (filter (\<lambda>p. post_pk p = comment_post_id c) (posts d))"

text \<open>
  \<open>post.comments\<close>, the reverse link of \<open>Comment.post\<close>.
\<close>

definition Post_comments :: "db \<Rightarrow> Post \<Rightarrow> Comment list" where
  "Post_comments d p = filter (\<lambda>c. comment_post_id c = post_pk p) (comments d)"

text \<open>
  The named routes the views reverse, and the login page to which the framework's
  \<open>LoginRequiredMixin\<close> redirects.
\<close>

datatype url = blog_index | blog_post_detail nat | blog_profile string | login

datatype http_method = GET | POST

text \<open>
  The \<open>page\<close> query parameter, by what Python's \<open>int\<close> makes of it: absent or
  empty, a string that converts to an integer, the word \<open>last\<close>, or any other string.
\<close>

datatype page_param = NoPage | PageInt int | PageLast | PageNotInt

text \<open>
  A request: \<open>user\<close> is \<open>None\<close> for the anonymous user and the logged-in user's row
  otherwise; \<open>POST_data\<close> is the submitted form.
\<close>

record request =
  user :: "User option"
  req_method :: http_method
  GET_page :: page_param
  POST_data :: "string \<rightharpoonup> string"

text \<open>
  A model instance as a template sees it: the row, and the \<open>comment_count\<close>
  attribute when the queryset was annotated with it.
\<close>

type_synonym post_obj = "Post \<times> nat option"

record page_obj =
  page_number :: nat
  object_list :: "post_obj list"

text \<open>The rendered pages, by template, each with the context the view gave it.\<close>

datatype page =
    profile_html User page_obj "User option"
  | index_html page_obj
  | category_html page_obj Category
  | detail_html Post "Comment list"
  | create_html "Post option"
  | comment_html "Comment option"
  | comment_form_html

datatype response =
    HttpResponse page
  | HttpResponseRedirect url
  | HttpResponseNotFound
  | HttpResponseNotAllowed
  | HttpResponseServerError

definition status_code :: "response \<Rightarrow> nat" where
  "status_code r =
     (case r of
        HttpResponse _ \<Rightarrow> 200
      | HttpResponseRedirect _ \<Rightarrow> 302
      | HttpResponseNotFound \<Rightarrow> 404
      | HttpResponseNotAllowed \<Rightarrow> 405
      | HttpResponseServerError \<Rightarrow> 500)"

definition response_for_exception :: "exn \<Rightarrow> response" where
  "response_for_exception e =
     (case e of Http404 \<Rightarrow> HttpResponseNotFound | _ \<Rightarrow> HttpResponseServerError)"

text \<open>
  \<open>a != b\<close> on a user row and \<open>request.user\<close>: two rows are equal when their primary
  keys are, and the anonymous user equals no row.
\<close>

definition User_ne :: "User \<Rightarrow> User option \<Rightarrow> bool" where
  "User_ne a ru = (case ru of None \<Rightarrow> True | Some u \<Rightarrow> user_pk a \<noteq> user_pk u)"

section \<open>The post detail view\<close>

text \<open>
  \<open>DetailView.dispatch\<close> for \<open>PostDetailView\<close>: a GET fetches the object by
  \<open>post_id\<close> and renders it with \<open>PostDetailView.get_context_data\<close> (the comment form
  and \<open>self.object.comments\<close>); the view has no handler for POST.
\<close>

definition PostDetailView_get_context_data :: "db \<Rightarrow> Post \<Rightarrow> page" where
  "PostDetailView_get_context_data d object = detail_html object (Post_comments d object)"

definition PostDetailView_super_dispatch :: "db \<Rightarrow> request \<Rightarrow> nat \<Rightarrow> response" where
  "PostDetailView_super_dispatch d request post_id =
     (case req_method request of
        POST \<Rightarrow> HttpResponseNotAllowed
      | GET \<Rightarrow>
          (case get_object_or_404 (posts d) (\<lambda>p. post_pk p = post_id) of
             Inl e \<Rightarrow> response_for_exception e
           | Inr object \<Rightarrow> HttpResponse (PostDetailView_get_context_data d object)))"

text \<open>
  \<open>PostDetailView.dispatch\<close>; \<open>today\<close> is \<open>timezone.now()\<close>, read while the request
  is served.  Python's \<open>or\<close> stops at the first true operand, so the category is
  fetched only for a published post.
\<close>

definition PostDetailView_dispatch :: "datetime \<Rightarrow> db \<Rightarrow> request \<Rightarrow> nat \<Rightarrow> response" where
  "PostDetailView_dispatch today d request post_id =
     (case get_object_or_404 (posts d) (\<lambda>p. post_pk p = post_id) of
        Inl e \<Rightarrow> response_for_exception e
      | Inr post \<Rightarrow>
          (let gate =
             (case Post_author d post of
                Inl e \<Rightarrow> response_for_exception e
              | Inr author \<Rightarrow>
                  if \<not> User_ne author (user request)
                  then PostDetailView_super_dispatch d request post_id
                  else HttpResponseNotFound)
           in
             if \<not> is_published post then gate
             else
               (case Post_category d post of
                  Inl e \<Rightarrow> response_for_exception e
                | Inr category \<Rightarrow>
                    if \<not> category_is_published category \<or> \<not> pub_date post \<le> today
                    then gate
                    else PostDetailView_super_dispatch d request post_id)))"

text \<open>
  The visibility invariant of the spec: the post is published, its category is
  published, and its publication date is not after the current moment.
\<close>

definition visible :: "db \<Rightarrow> datetime \<Rightarrow> Post \<Rightarrow> bool" where
  "visible d now p \<longleftrightarrow>
     is_published p \<and>
     (case Post_category d p of Inl _ \<Rightarrow> False | Inr c \<Rightarrow> category_is_published c) \<and>
     pub_date p \<le> now"

section \<open>Pagination\<close>

definition POSTS_PER_PAGE :: nat where
  "POSTS_PER_PAGE = 10"

datatype invalid_page = PageNotAnInteger | EmptyPage

text \<open>
  The framework's \<open>Paginator\<close>, as the views build it: no orphans, and an empty
  first page allowed.  \<open>num_pages\<close> is \<open>ceil(max(1, count) / per_page)\<close>.
\<close>

definition Paginator_num_pages :: "post_obj list \<Rightarrow> nat \<Rightarrow> nat" where
  "Paginator_num_pages objs per_page =
     (let hits = max 1 (length objs) in (hits + per_page - 1) div per_page)"

text \<open>
  \<open>validate_number\<close>; the argument is \<open>None\<close> when the number given does not
  convert to an integer.
\<close>

definition Paginator_validate_number ::
    "post_obj list \<Rightarrow> nat \<Rightarrow> int option \<Rightarrow> invalid_page + nat" where
  "Paginator_validate_number objs per_page number =
     (case number of
        None \<Rightarrow> Inl PageNotAnInteger
      | Some n \<Rightarrow>
          if n < 1 then Inl EmptyPage
          else if int (Paginator_num_pages objs per_page) < n then Inl EmptyPage
          else Inr (nat n))"

text \<open>\<open>page(number)\<close>: the slice \<open>object_list[bottom:top]\<close>.\<close>

definition Paginator_page ::
    "post_obj list \<Rightarrow> nat \<Rightarrow> int option \<Rightarrow> invalid_page + page_obj" where
  "Paginator_page objs per_page number =
     (case Paginator_validate_number objs per_page number of
        Inl e \<Rightarrow> Inl e
      | Inr n \<Rightarrow>
          (let bottom = (n - 1) * per_page;
               top = bottom + per_page;
               top = (if length objs \<le> top then length objs else top)
           in Inr \<lparr>page_number = n,
                    object_list = take (top - bottom) (drop bottom objs)\<rparr>))"

text \<open>
  \<open>get_page(number)\<close>: a number that is not an integer gives the first page, one
  out of range the last.
\<close>

definition Paginator_get_page ::
    "post_obj list \<Rightarrow> nat \<Rightarrow> int option \<Rightarrow> invalid_page + page_obj" where
  "Paginator_get_page objs per_page number =
     (case Paginator_validate_number objs per_page number of
        Inl PageNotAnInteger \<Rightarrow> Paginator_page objs per_page (Some 1)
      | Inl EmptyPage \<Rightarrow>
          Paginator_page objs per_page (Some (int (Paginator_num_pages objs per_page)))
      | Inr n \<Rightarrow> Paginator_page objs per_page (Some (int n)))"

definition py_int :: "page_param \<Rightarrow> int option" where
  "py_int page = (case page of PageInt n \<Rightarrow> Some n | _ \<Rightarrow> None)"

text \<open>
  \<open>MultipleObjectMixin.paginate_queryset\<close>, which a \<open>ListView\<close> with
  \<open>paginate_by\<close> runs inside \<open>get_context_data\<close>: no page parameter means page 1,
  \<open>last\<close> the last page, and an invalid page raises \<open>Http404\<close>.
\<close>

definition paginate_queryset :: "post_obj list \<Rightarrow> nat \<Rightarrow> page_param \<Rightarrow> exn + page_obj" where
  "paginate_queryset queryset page_size page =
     (case (case page of
              NoPage \<Rightarrow> Inr 1
            | PageInt n \<Rightarrow> Inr n
            | PageLast \<Rightarrow> Inr (int (Paginator_num_pages queryset page_size))
            | PageNotInt \<Rightarrow> Inl Http404) of
        Inl e \<Rightarrow> Inl e
      | Inr number \<Rightarrow>
          (case Paginator_page queryset page_size (Some number) of
             Inl _ \<Rightarrow> Inl Http404
           | Inr p \<Rightarrow> Inr p))"

section \<open>Querysets of posts\<close>

definition Post_objects :: "db \<Rightarrow> post_obj list" where
  "Post_objects d = map (\<lambda>p. (p, None)) (posts d)"

definition QuerySet_filter :: "(Post \<Rightarrow> bool) \<Rightarrow> post_obj list \<Rightarrow> post_obj list" where
  "QuerySet_filter lookup qs = filter (\<lambda>obj. lookup (fst obj)) qs"

text \<open>\<open>order_by('-pub_date')\<close>.\<close>

definition order_by_pub_date_desc :: "post_obj list \<Rightarrow> post_obj list" where
  "order_by_pub_date_desc qs = sort_key (\<lambda>obj. - pub_date (fst obj)) qs"

text \<open>\<open>annotate(comment_count=Count('comments'))\<close>.\<close>

definition Count_comments :: "db \<Rightarrow> Post \<Rightarrow> nat" where
  "Count_comments d p = length (Post_comments d p)"

definition annotate_comment_count :: "db \<Rightarrow> post_obj list \<Rightarrow> post_obj list" where
  "annotate_comment_count d qs = map (\<lambda>obj. (fst obj, Some (Count_comments d (fst obj)))) qs"

text \<open>
  The lookups \<open>category__is_published=True\<close> and \<open>category__slug=s\<close>: a join of the
  post with its category row.
\<close>

definition category__is_published :: "db \<Rightarrow> Post \<Rightarrow> bool" where
  "category__is_published d p \<longleftrightarrow>
     (\<exists>c \<in> set (categories d). category_pk c = category_id p \<and> category_is_published c)"

definition category__slug :: "db \<Rightarrow> Post \<Rightarrow> string \<Rightarrow> bool" where
  "category__slug d p s \<longleftrightarrow>
     (\<exists>c \<in> set (categories d). category_pk c = category_id p \<and> slug c = s)"

section \<open>The listing views\<close>

text \<open>
  \<open>IndexListView.queryset\<close> is a class attribute: \<open>today\<close> is \<open>timezone.now()\<close> read
  once, when the class body runs.  The framework runs the query again on each request,
  against the database of that moment, with the filter it was built with.
\<close>

definition IndexListView_queryset :: "datetime \<Rightarrow> db \<Rightarrow> post_obj list" where
  "IndexListView_queryset today d =
     annotate_comment_count d
       (order_by_pub_date_desc
          (QuerySet_filter
             (\<lambda>p. pub_date p \<le> today \<and> is_published p \<and> category__is_published d p)
             (Post_objects d)))"

definition IndexListView :: "datetime \<Rightarrow> db \<Rightarrow> request \<Rightarrow> response" where
  "IndexListView today d request =
     (case req_method request of
        POST \<Rightarrow> HttpResponseNotAllowed
      | GET \<Rightarrow>
          (case paginate_queryset (IndexListView_queryset today d) POSTS_PER_PAGE
                  (GET_page request) of
             Inl e \<Rightarrow> response_for_exception e
           | Inr page_obj \<Rightarrow> HttpResponse (index_html page_obj)))"

text \<open>
  \<open>CategoryPostsListView\<close>; here \<open>today\<close> is \<open>timezone.now()\<close> read in
  \<open>get_queryset\<close>, while the request is served.
\<close>

definition CategoryPostsListView_get_queryset :: "datetime \<Rightarrow> db \<Rightarrow> string \<Rightarrow> post_obj list" where
  "CategoryPostsListView_get_queryset today d category_slug =
     order_by_pub_date_desc
       (QuerySet_filter
          (\<lambda>p. category__slug d p category_slug \<and> is_published p \<and> pub_date p \<le> today)
          (Post_objects d))"

definition CategoryPostsListView_get_context_data ::
    "db \<Rightarrow> request \<Rightarrow> string \<Rightarrow> post_obj list \<Rightarrow> exn + page" where
  "CategoryPostsListView_get_context_data d request category_slug objs =
     (case paginate_queryset objs POSTS_PER_PAGE (GET_page request) of
        Inl e \<Rightarrow> Inl e
      | Inr page_obj \<Rightarrow>
          (case get_object_or_404 (categories d)
                  (\<lambda>c. slug c = category_slug \<and> category_is_published c) of
             Inl e \<Rightarrow> Inl e
           | Inr category \<Rightarrow> Inr (category_html page_obj category)))"

definition CategoryPostsListView :: "datetime \<Rightarrow> db \<Rightarrow> request \<Rightarrow> string \<Rightarrow> response" where
  "CategoryPostsListView today d request category_slug =
     (case req_method request of
        POST \<Rightarrow> HttpResponseNotAllowed
      | GET \<Rightarrow>
          (case CategoryPostsListView_get_context_data d request category_slug
                  (CategoryPostsListView_get_queryset today d category_slug) of
             Inl e \<Rightarrow> response_for_exception e
           | Inr pg \<Rightarrow> HttpResponse pg))"

text \<open>
  \<open>UserDetailView\<close>: \<open>profile.posts\<close> is the reverse link of \<open>Post.author\<close>.  The
  framework's \<open>DetailView\<close> fetches the object by \<open>username\<close> before it asks for the
  context.
\<close>

definition User_posts :: "db \<Rightarrow> User \<Rightarrow> post_obj list" where
  "User_posts d u = QuerySet_filter (\<lambda>p. author_id p = user_pk u) (Post_objects d)"

definition UserDetailView_post_list :: "db \<Rightarrow> User \<Rightarrow> post_obj list" where
  "UserDetailView_post_list d profile =
     annotate_comment_count d (order_by_pub_date_desc (User_posts d profile))"

definition UserDetailView_get_context_data :: "db \<Rightarrow> request \<Rightarrow> string \<Rightarrow> exn + page" where
  "UserDetailView_get_context_data d request uname =
     (case get_object_or_404 (users d) (\<lambda>u. username u = uname) of
        Inl e \<Rightarrow> Inl e
      | Inr profile \<Rightarrow>
          (case Paginator_get_page (UserDetailView_post_list d profile) POSTS_PER_PAGE
                  (py_int (GET_page request)) of
             Inl _ \<Rightarrow> Inl InvalidPage
           | Inr page_obj \<Rightarrow> Inr (profile_html profile page_obj (user request))))"

definition UserDetailView :: "db \<Rightarrow> request \<Rightarrow> string \<Rightarrow> response" where
  "UserDetailView d request uname =
     (case req_method request of
        POST \<Rightarrow> HttpResponseNotAllowed
      | GET \<Rightarrow>
          (case get_object_or_404 (users d) (\<lambda>u. username u = uname) of
             Inl e \<Rightarrow> response_for_exception e
           | Inr object \<Rightarrow>
               (case UserDetailView_get_context_data d request uname of
                  Inl e \<Rightarrow> response_for_exception e
                | Inr pg \<Rightarrow> HttpResponse pg)))"

text \<open>The posts a response lists: the object list of the page it renders, if any.\<close>

definition listing :: "response \<Rightarrow> post_obj list" where
  "listing r =
     (case r of
        HttpResponse (index_html pg) \<Rightarrow> object_list pg
      | HttpResponse (category_html pg _) \<Rightarrow> object_list pg
      | HttpResponse (profile_html _ pg _) \<Rightarrow> object_list pg
      | _ \<Rightarrow> [])"

section \<open>Forms\<close>

text \<open>
  A model form reads, of the submitted data, the fields its \<open>Meta.fields\<close> names and
  nothing else; what it makes of them is the models' field validation.
\<close>

record PostForm_cleaned_data =
  cleaned_title :: string
  cleaned_text :: string
  cleaned_pub_date :: datetime
  cleaned_category :: nat
  cleaned_location :: "nat option"
  cleaned_image :: string

text \<open>
  Modelled from the spec: what the views take from the models module besides the
  fields, as parameters.  \<open>Post_clean\<close> and \<open>Comment_clean\<close> validate the fields of a
  form (\<open>None\<close> when the form has errors), \<open>Post_get_absolute_url\<close> is the model's
  method of that name (\<open>None\<close> when the model has none), and
  \<open>Post_is_published_default\<close> is the default of the field a new post is saved with.
\<close>

record models =
  Post_clean :: "db \<Rightarrow> (string \<rightharpoonup> string) \<Rightarrow> PostForm_cleaned_data option"
  Comment_clean :: "(string \<rightharpoonup> string) \<Rightarrow> string option"
  Post_get_absolute_url :: "Post \<Rightarrow> url option"
  Post_is_published_default :: bool

definition PostForm_Meta_fields :: "string list" where
  "PostForm_Meta_fields = [''title'', ''text'', ''pub_date'', ''category'', ''location'', ''image'']"

definition CommentForm_Meta_fields :: "string list" where
  "CommentForm_Meta_fields = [''text'']"

definition ModelForm_data :: "string list \<Rightarrow> (string \<rightharpoonup> string) \<Rightarrow> (string \<rightharpoonup> string)" where
  "ModelForm_data names data = (\<lambda>k. if k \<in> set names then data k else None)"

definition PostForm :: "models \<Rightarrow> db \<Rightarrow> (string \<rightharpoonup> string) \<Rightarrow> PostForm_cleaned_data option" where
  "PostForm M d data = Post_clean M d (ModelForm_data PostForm_Meta_fields data)"

definition CommentForm :: "models \<Rightarrow> (string \<rightharpoonup> string) \<Rightarrow> string option" where
  "CommentForm M data = Comment_clean M (ModelForm_data CommentForm_Meta_fields data)"

section \<open>Saving and deleting rows\<close>

text \<open>A new row gets a primary key above every key of its table.\<close>

definition next_pk :: "nat list \<Rightarrow> nat" where
  "next_pk pks = Suc (fold max pks 0)"

definition Post_construct :: "Post \<Rightarrow> PostForm_cleaned_data \<Rightarrow> Post" where
  "Post_construct object cd =
     object\<lparr>title := cleaned_title cd, post_text := cleaned_text cd,
            pub_date := cleaned_pub_date cd, category_id := cleaned_category cd,
            location_id := cleaned_location cd, post_image := cleaned_image cd\<rparr>"

definition Post_insert :: "Post \<Rightarrow> db \<Rightarrow> db" where
  "Post_insert object d = d\<lparr>posts := posts d @ [object]\<rparr>"

definition Post_update :: "Post \<Rightarrow> db \<Rightarrow> db" where
  "Post_update object d =
     d\<lparr>posts := map (\<lambda>r. if post_pk r = post_pk object then object else r) (posts d)\<rparr>"

text \<open>
  Modelled from the spec: the link from a comment to its post is declared in the missing
  models module; it is taken to cascade, so deleting a post deletes the comments on it.
\<close>

definition Post_delete :: "Post \<Rightarrow> db \<Rightarrow> db" where
  "Post_delete object d =
     d\<lparr>posts := filter (\<lambda>r. post_pk r \<noteq> post_pk object) (posts d),
       comments := filter (\<lambda>c. comment_post_id c \<noteq> post_pk object) (comments d)\<rparr>"

definition Comment_insert :: "Comment \<Rightarrow> db \<Rightarrow> db" where
  "Comment_insert object d = d\<lparr>comments := comments d @ [object]\<rparr>"

definition Comment_update :: "Comment \<Rightarrow> db \<Rightarrow> db" where
  "Comment_update object d =
     d\<lparr>comments :=
         map (\<lambda>r. if comment_pk r = comment_pk object then object else r) (comments d)\<rparr>"

definition Comment_delete :: "Comment \<Rightarrow> db \<Rightarrow> db" where
  "Comment_delete object d =
     d\<lparr>comments := filter (\<lambda>r. comment_pk r \<noteq> comment_pk object) (comments d)\<rparr>"

section \<open>The mixins\<close>

text \<open>
  A view that may write: it returns the response and the database it leaves.  A
  \<open>dispatch\<close> that a mixin overrides takes the \<open>dispatch\<close> next in the class's method
  resolution order as \<open>super_dispatch\<close>.
\<close>

type_synonym 'k view = "db \<Rightarrow> request \<Rightarrow> 'k \<Rightarrow> response \<times> db"

text \<open>
  The framework's \<open>LoginRequiredMixin.dispatch\<close>: the anonymous user is sent to the
  login page.
\<close>

definition LoginRequiredMixin_dispatch :: "'k view \<Rightarrow> 'k view" where
  "LoginRequiredMixin_dispatch super_dispatch d request kwargs =
     (if user request = None then (HttpResponseRedirect login, d)
      else super_dispatch d request kwargs)"

definition PostDispatchMixin_dispatch :: "nat view \<Rightarrow> nat view" where
  "PostDispatchMixin_dispatch super_dispatch d request post_id =
     (case get_object_or_404 (posts d) (\<lambda>p. post_pk p = post_id) of
        Inl e \<Rightarrow> (response_for_exception e, d)
      | Inr instance \<Rightarrow>
          (case Post_author d instance of
             Inl e \<Rightarrow> (response_for_exception e, d)
           | Inr author \<Rightarrow>
               if User_ne author (user request)
               then (HttpResponseRedirect (blog_post_detail (post_pk instance)), d)
               else super_dispatch d request post_id))"

text \<open>
  The comment views' keyword arguments are \<open>(post_id, comment_id)\<close>.
\<close>

definition CommentMixin_dispatch :: "(nat \<times> nat) view \<Rightarrow> (nat \<times> nat) view" where
  "CommentMixin_dispatch super_dispatch d request kwargs =
     (case get_object_or_404 (comments d) (\<lambda>c. comment_pk c = snd kwargs) of
        Inl e \<Rightarrow> (response_for_exception e, d)
      | Inr instance \<Rightarrow>
          (case Comment_author d instance of
             Inl e \<Rightarrow> (response_for_exception e, d)
           | Inr author \<Rightarrow>
               if User_ne author (user request)
               then
                 (case Comment_post d instance of
                    Inl e \<Rightarrow> (response_for_exception e, d)
                  | Inr post \<Rightarrow> (HttpResponseRedirect (blog_post_detail (post_pk post)), d))
               else super_dispatch d request kwargs))"

definition CommentMixin_get_success_url :: "db \<Rightarrow> Comment \<Rightarrow> exn + url" where
  "CommentMixin_get_success_url d object =
     (case Comment_post d object of
        Inl e \<Rightarrow> Inl e
      | Inr post \<Rightarrow> Inr (blog_post_detail (post_pk post)))"

section \<open>The views that create, update and delete\<close>

text \<open>
  For each view, \<open>_View_dispatch\<close> is the framework's \<open>View.dispatch\<close> at the end of
  the class's method resolution order, with the class's attributes and overrides: it
  calls the handler of the request's method.  An update or create view renders its form
  on GET and on a POST whose form has errors, and saves and redirects on a valid POST;
  a delete view renders on GET and deletes and redirects on POST.
\<close>

definition PostCreateView_form_valid ::
    "models \<Rightarrow> db \<Rightarrow> request \<Rightarrow> PostForm_cleaned_data \<Rightarrow> response \<times> db" where
  "PostCreateView_form_valid M d request cd =
     (case user request of
        None \<Rightarrow> (response_for_exception ValueError, d)
      | Some u \<Rightarrow>
          (let object =
                 \<lparr>post_pk = next_pk (map post_pk (posts d)), title = cleaned_title cd,
                  post_text = cleaned_text cd, pub_date = cleaned_pub_date cd,
                  category_id = cleaned_category cd, location_id = cleaned_location cd,
                  post_image = cleaned_image cd, author_id = user_pk u,
                  is_published = Post_is_published_default M\<rparr>
           in (HttpResponseRedirect (blog_profile (username u)), Post_insert object d)))"

definition PostCreateView_View_dispatch :: "models \<Rightarrow> unit view" where
  "PostCreateView_View_dispatch M d request kwargs =
     (case req_method request of
        GET \<Rightarrow> (HttpResponse (create_html None), d)
      | POST \<Rightarrow>
          (case PostForm M d (POST_data request) of
             None \<Rightarrow> (HttpResponse (create_html None), d)
           | Some cd \<Rightarrow> PostCreateView_form_valid M d request cd))"

text \<open>\<open>class PostCreateView(PostMixin, LoginRequiredMixin, CreateView)\<close>\<close>

definition PostCreateView :: "models \<Rightarrow> unit view" where
  "PostCreateView M = LoginRequiredMixin_dispatch (PostCreateView_View_dispatch M)"

definition PostUpdateView_View_dispatch :: "models \<Rightarrow> nat view" where
  "PostUpdateView_View_dispatch M d request post_id =
     (case get_object_or_404 (posts d) (\<lambda>p. post_pk p = post_id) of
        Inl e \<Rightarrow> (response_for_exception e, d)
      | Inr object \<Rightarrow>
          (case req_method request of
             GET \<Rightarrow> (HttpResponse (create_html (Some object)), d)
           | POST \<Rightarrow>
               (case PostForm M d (POST_data request) of
                  None \<Rightarrow> (HttpResponse (create_html (Some object)), d)
                | Some cd \<Rightarrow>
                    (let object' = Post_construct object cd;
                         d' = Post_update object' d
                     in (case Post_get_absolute_url M object' of
                           None \<Rightarrow> (response_for_exception ImproperlyConfigured, d')
                         | Some success_url \<Rightarrow> (HttpResponseRedirect success_url, d'))))))"

text \<open>
  \<open>class PostUpdateView(PostMixin, PostDispatchMixin, LoginRequiredMixin, UpdateView)\<close>:
  the bases are tried from left to right, so \<open>PostDispatchMixin.dispatch\<close> runs first
  and its \<open>super().dispatch\<close> is \<open>LoginRequiredMixin.dispatch\<close>.
\<close>

definition PostUpdateView :: "models \<Rightarrow> nat view" where
  "PostUpdateView M =
     PostDispatchMixin_dispatch (LoginRequiredMixin_dispatch (PostUpdateView_View_dispatch M))"

definition PostDeleteView_get_context_data :: "db \<Rightarrow> Post \<Rightarrow> exn + page" where
  "PostDeleteView_get_context_data d object =
     (case get_object_or_404 (posts d) (\<lambda>p. post_pk p = post_pk object) of
        Inl e \<Rightarrow> Inl e
      | Inr instance \<Rightarrow> Inr (create_html (Some instance)))"

definition PostDeleteView_View_dispatch :: "nat view" where
  "PostDeleteView_View_dispatch d request post_id =
     (case get_object_or_404 (posts d) (\<lambda>p. post_pk p = post_id) of
        Inl e \<Rightarrow> (response_for_exception e, d)
      | Inr object \<Rightarrow>
          (case req_method request of
             GET \<Rightarrow>
               (case PostDeleteView_get_context_data d object of
                  Inl e \<Rightarrow> (response_for_exception e, d)
                | Inr pg \<Rightarrow> (HttpResponse pg, d))
           | POST \<Rightarrow> (HttpResponseRedirect blog_index, Post_delete object d)))"

text \<open>
  \<open>class PostDeleteView(PostMixin, PostDispatchMixin, LoginRequiredMixin, DeleteView)\<close>
\<close>

definition PostDeleteView :: "nat view" where
  "PostDeleteView =
     PostDispatchMixin_dispatch (LoginRequiredMixin_dispatch PostDeleteView_View_dispatch)"

definition CommentCreateView_form_valid ::
    "db \<Rightarrow> request \<Rightarrow> Post \<Rightarrow> string \<Rightarrow> response \<times> db" where
  "CommentCreateView_form_valid d request post_object cleaned =
     (case user request of
        None \<Rightarrow> (response_for_exception ValueError, d)
      | Some u \<Rightarrow>
          (let object =
                 \<lparr>comment_pk = next_pk (map comment_pk (comments d)),
                  comment_text = cleaned, comment_author_id = user_pk u,
                  comment_post_id = post_pk post_object\<rparr>
           in (HttpResponseRedirect (blog_post_detail (post_pk post_object)),
               Comment_insert object d)))"

definition CommentCreateView_View_dispatch :: "models \<Rightarrow> Post \<Rightarrow> nat view" where
  "CommentCreateView_View_dispatch M post_object d request post_id =
     (case req_method request of
        GET \<Rightarrow> (HttpResponse comment_form_html, d)
      | POST \<Rightarrow>
          (case CommentForm M (POST_data request) of
             None \<Rightarrow> (HttpResponse comment_form_html, d)
           | Some cleaned \<Rightarrow> CommentCreateView_form_valid d request post_object cleaned))"

text \<open>
  \<open>class CommentCreateView(LoginRequiredMixin, CreateView)\<close>: the class's own
  \<open>dispatch\<close> runs before \<open>LoginRequiredMixin.dispatch\<close>.
\<close>

definition CommentCreateView_dispatch :: "models \<Rightarrow> nat view" where
  "CommentCreateView_dispatch M d request post_id =
     (case get_object_or_404 (posts d) (\<lambda>p. post_pk p = post_id) of
        Inl e \<Rightarrow> (response_for_exception e, d)
      | Inr post_object \<Rightarrow>
          LoginRequiredMixin_dispatch (CommentCreateView_View_dispatch M post_object)
            d request post_id)"

definition CommentUpdateView_get_context_data :: "db \<Rightarrow> nat \<times> nat \<Rightarrow> exn + page" where
  "CommentUpdateView_get_context_data d kwargs =
     (case get_object_or_404 (comments d) (\<lambda>c. comment_pk c = snd kwargs) of
        Inl e \<Rightarrow> Inl e
      | Inr instance \<Rightarrow> Inr (comment_html (Some instance)))"

definition CommentUpdateView_View_dispatch :: "models \<Rightarrow> (nat \<times> nat) view" where
  "CommentUpdateView_View_dispatch M d request kwargs =
     (case get_object_or_404 (comments d) (\<lambda>c. comment_pk c = snd kwargs) of
        Inl e \<Rightarrow> (response_for_exception e, d)
      | Inr object \<Rightarrow>
          (let render =
                 (case CommentUpdateView_get_context_data d kwargs of
                    Inl e \<Rightarrow> (response_for_exception e, d)
                  | Inr pg \<Rightarrow> (HttpResponse pg, d))
           in (case req_method request of
                 GET \<Rightarrow> render
               | POST \<Rightarrow>
                   (case CommentForm M (POST_data request) of
                      None \<Rightarrow> render
                    | Some cleaned \<Rightarrow>
                        (let object' = object\<lparr>comment_text := cleaned\<rparr>;
                             d' = Comment_update object' d
                         in (case CommentMixin_get_success_url d' object' of
                               Inl e \<Rightarrow> (response_for_exception e, d')
                             | Inr success_url \<Rightarrow> (HttpResponseRedirect success_url, d')))))))"

text \<open>
  \<open>class CommentUpdateView(LoginRequiredMixin, CommentMixin, UpdateView)\<close>
\<close>

definition CommentUpdateView :: "models \<Rightarrow> (nat \<times> nat) view" where
  "CommentUpdateView M =
     LoginRequiredMixin_dispatch (CommentMixin_dispatch (CommentUpdateView_View_dispatch M))"

definition CommentDeleteView_View_dispatch :: "(nat \<times> nat) view" where
  "CommentDeleteView_View_dispatch d request kwargs =
     (case get_object_or_404 (comments d) (\<lambda>c. comment_pk c = snd kwargs) of
        Inl e \<Rightarrow> (response_for_exception e, d)
      | Inr object \<Rightarrow>
          (case req_method request of
             GET \<Rightarrow> (HttpResponse (comment_html None), d)
           | POST \<Rightarrow>
               (case CommentMixin_get_success_url d object of
                  Inl e \<Rightarrow> (response_for_exception e, d)
                | Inr success_url \<Rightarrow>
                    (HttpResponseRedirect success_url, Comment_delete object d))))"

text \<open>
  \<open>class CommentDeleteView(LoginRequiredMixin, CommentMixin, DeleteView)\<close>
\<close>

definition CommentDeleteView :: "(nat \<times> nat) view" where
  "CommentDeleteView =
     LoginRequiredMixin_dispatch (CommentMixin_dispatch CommentDeleteView_View_dispatch)"

text \<open>The request for page \<open>n\<close> of a listing.\<close>

definition page_request :: "request \<Rightarrow> nat \<Rightarrow> request" where
  "page_request request n = request\<lparr>req_method := GET, GET_page := PageInt (int n)\<rparr>"

text \<open>A list of posts is newest first when it is sorted by \<open>pub_date\<close>, descending.\<close>

definition newest_first :: "post_obj list \<Rightarrow> bool" where
  "newest_first objs = sorted_wrt (\<lambda>a b. pub_date (fst b) \<le> pub_date (fst a)) objs"

section \<open>A small database\<close>

text \<open>
  Two users, a published and an unpublished category, five posts and one comment, on
  which the theorems below are instantiated.
\<close>

definition alice :: User where
  "alice = \<lparr>user_pk = 1, username = ''alice'', first_name = ''Alice'', last_name = ''A'',
            email = ''alice@example.org''\<rparr>"

definition bob :: User where
  "bob = \<lparr>user_pk = 2, username = ''bob'', first_name = ''Bob'', last_name = ''B'',
          email = ''bob@example.org''\<rparr>"

definition travel :: Category where
  "travel = \<lparr>category_pk = 1, slug = ''travel'', category_is_published = True\<rparr>"

definition drafts :: Category where
  "drafts = \<lparr>category_pk = 2, slug = ''drafts'', category_is_published = False\<rparr>"

definition post1 :: Post where
  "post1 = \<lparr>post_pk = 1, title = ''One'', post_text = ''first'', pub_date = 10,
            category_id = 1, location_id = None, post_image = [], author_id = 1,
            is_published = True\<rparr>"

definition post2 :: Post where
  "post2 = \<lparr>post_pk = 2, title = ''Two'', post_text = ''hidden'', pub_date = 20,
            category_id = 1, location_id = None, post_image = [], author_id = 1,
            is_published = False\<rparr>"

definition post3 :: Post where
  "post3 = \<lparr>post_pk = 3, title = ''Three'', post_text = ''in drafts'', pub_date = 30,
            category_id = 2, location_id = None, post_image = [], author_id = 2,
            is_published = True\<rparr>"

definition post4 :: Post where
  "post4 = \<lparr>post_pk = 4, title = ''Four'', post_text = ''recent'', pub_date = 50,
            category_id = 1, location_id = None, post_image = [], author_id = 2,
            is_published = True\<rparr>"

definition post5 :: Post where
  "post5 = \<lparr>post_pk = 5, title = ''Five'', post_text = ''scheduled'', pub_date = 1000,
            category_id = 1, location_id = None, post_image = [], author_id = 1,
            is_published = True\<rparr>"

definition comment1 :: Comment where
  "comment1 = \<lparr>comment_pk = 1, comment_text = ''hello'', comment_author_id = 2,
               comment_post_id = 1\<rparr>"

definition blog_db :: db where
  "blog_db = \<lparr>users = [alice, bob], categories = [travel, drafts],
              posts = [post1, post2, post3, post4, post5], comments = [comment1]\<rparr>"

definition get_as :: "User option \<Rightarrow> request" where
  "get_as u = \<lparr>user = u, req_method = GET, GET_page = NoPage, POST_data = Map.empty\<rparr>"

definition post_as :: "User option \<Rightarrow> (string \<rightharpoonup> string) \<Rightarrow> request" where
  "post_as u data = \<lparr>user = u, req_method = POST, GET_page = NoPage, POST_data = data\<rparr>"

text \<open>
  Parameters for the examples.  A post form is valid when it has a title and a text that
  are not empty, a publication date, a category that is a row of the database and, if
  it has a location, one that is a number; numbers and dates are written in decimal
  digits, a date as its time stamp.  A comment form is valid when its text is not
  empty, and a post's own address is its detail page.
\<close>

definition digit_value :: "char \<Rightarrow> nat option" where
  "digit_value ch =
     (let n = (of_char ch :: nat) in if 48 \<le> n \<and> n \<le> 57 then Some (n - 48) else None)"

fun decimal :: "nat \<Rightarrow> string \<Rightarrow> nat option" where
  "decimal acc [] = Some acc"
| "decimal acc (ch # s) =
     (case digit_value ch of None \<Rightarrow> None | Some v \<Rightarrow> decimal (10 * acc + v) s)"

definition parse_nat :: "string \<Rightarrow> nat option" where
  "parse_nat s = (if s = [] then None else decimal 0 s)"

definition blog_Post_clean :: "db \<Rightarrow> (string \<rightharpoonup> string) \<Rightarrow> PostForm_cleaned_data option" where
  "blog_Post_clean d data =
     (case data ''title'' of
        None \<Rightarrow> None
      | Some t \<Rightarrow>
     (case data ''text'' of
        None \<Rightarrow> None
      | Some x \<Rightarrow>
     (case Option.bind (data ''pub_date'') parse_nat of
        None \<Rightarrow> None
      | Some stamp \<Rightarrow>
     (case Option.bind (data ''category'') parse_nat of
        None \<Rightarrow> None
      | Some k \<Rightarrow>
     (case (case data ''location'' of
              None \<Rightarrow> Some None
            | Some l \<Rightarrow> if l = [] then Some None else map_option Some (parse_nat l)) of
        None \<Rightarrow> None
      | Some place \<Rightarrow>
          if t \<noteq> [] \<and> x \<noteq> [] \<and> k \<in> category_pk ` set (categories d)
          then Some \<lparr>cleaned_title = t, cleaned_text = x, cleaned_pub_date = int stamp,
                     cleaned_category = k, cleaned_location = place,
                     cleaned_image = (case data ''image'' of None \<Rightarrow> [] | Some i \<Rightarrow> i)\<rparr>
          else None)))))"

definition blog_models :: models where
  "blog_models =
     \<lparr>Post_clean = blog_Post_clean,
      Comment_clean = (\<lambda>data.
         (case data ''text'' of
            None \<Rightarrow> None
          | Some t \<Rightarrow> if t = [] then None else Some t)),
      Post_get_absolute_url = (\<lambda>p. Some (blog_post_detail (post_pk p))),
      Post_is_published_default = True\<rparr>"

text \<open>
  Submitted form data for the examples.  The first is a complete post form that also
  has a text for a comment form; it and the third carry an \<open>author\<close> and a \<open>post\<close>,
  fields that no form of the application has.  The second is a post form without a
  publication date and a category.
\<close>

definition edit_data :: "string \<rightharpoonup> string" where
  "edit_data =
     [''title'' \<mapsto> ''New'', ''text'' \<mapsto> ''edited'', ''pub_date'' \<mapsto> ''60'',
      ''category'' \<mapsto> ''2'', ''author'' \<mapsto> ''1'', ''post'' \<mapsto> ''3'']"

definition short_data :: "string \<rightharpoonup> string" where
  "short_data = [''title'' \<mapsto> ''New'', ''text'' \<mapsto> ''edited'']"

definition forged_data :: "string \<rightharpoonup> string" where
  "forged_data = [''text'' \<mapsto> ''edited'', ''author'' \<mapsto> ''2'', ''post'' \<mapsto> ''1'']"

text \<open>A database with twelve visible posts, for the pages of a listing.\<close>

definition busy_db :: db where
  "busy_db =
     blog_db\<lparr>posts := map (\<lambda>i. post1\<lparr>post_pk := i, pub_date := int i\<rparr>) [1..<13]\<rparr>"

section \<open>Lookups in a well-formed database\<close>

lemma filter_key_unique:
  assumes "distinct (map k xs)" and "x \<in> set xs"
  shows "filter (\<lambda>y. k y = k x) xs = [x]"
  using assms
proof (induction xs)
  case Nil
  then show ?case by simp
next
  case (Cons a xs)
  show ?case
  proof (cases "a = x")
    case True
    with Cons.prems have "k x \<notin> k ` set xs" by simp
    then have "\<forall>y \<in> set xs. k y \<noteq> k x" by (metis imageI)
    then have "filter (\<lambda>y. k y = k x) xs = []" by (simp add: filter_empty_conv)
    with True show ?thesis by simp
  next
    case False
    with Cons.prems have "x \<in> set xs" and "k a \<noteq> k x" by auto
    with Cons show ?thesis by simp
  qed
qed

lemma get_by_key:
  assumes "distinct (map k xs)" and "x \<in> set xs"
  shows "get_object_or_404 xs (\<lambda>y. k y = k x) = Inr x"
  by (simp add: get_object_or_404_def QuerySet_get_def filter_key_unique [OF assms])

lemma status_code_values:
  "status_code (HttpResponse pg) = 200" "status_code (HttpResponseRedirect target) = 302"
  "status_code HttpResponseNotFound = 404" "status_code HttpResponseNotAllowed = 405"
  "status_code HttpResponseServerError = 500"
  by (simp_all add: status_code_def)

lemma fold_max_ge: "(a::nat) \<le> fold max xs a \<and> (\<forall>x \<in> set xs. x \<le> fold max xs a)"
proof (induction xs arbitrary: a)
  case Nil
  then show ?case by simp
next
  case (Cons y ys)
  from Cons [of "max y a"] show ?case
    by (auto simp: max_def split: if_splits)
qed

lemma next_pk_fresh: "next_pk pks \<notin> set pks"
proof
  assume "next_pk pks \<in> set pks"
  with fold_max_ge [of 0 pks] have "next_pk pks \<le> fold max pks 0"
    by blast
  then show False
    by (simp add: next_pk_def)
qed

lemma get_by_key_value:
  assumes "distinct (map k xs)" and "v \<in> k ` set xs"
  shows "\<exists>x \<in> set xs. k x = v \<and> filter (\<lambda>y. k y = v) xs = [x]"
proof -
  from assms(2) obtain x where x: "x \<in> set xs" "k x = v" by auto
  from filter_key_unique [OF assms(1) x(1)] x show ?thesis by auto
qed

lemma wf_post_lookup:
  assumes "wf_db d" and "p \<in> set (posts d)"
  shows "get_object_or_404 (posts d) (\<lambda>q. post_pk q = post_pk p) = Inr p"
  using assms by (simp add: wf_db_def get_by_key)

lemma wf_Post_category:
  assumes "wf_db d" and "p \<in> set (posts d)"
  shows "\<exists>c \<in> set (categories d). category_pk c = category_id p \<and> Post_category d p = Inr c"
proof -
  from assms have "distinct (map category_pk (categories d))"
    and "category_id p \<in> category_pk ` set (categories d)"
    by (simp_all add: wf_db_def)
  from get_by_key_value [OF this] show ?thesis
    by (auto simp: Post_category_def QuerySet_get_def)
qed

lemma wf_Post_author:
  assumes "wf_db d" and "p \<in> set (posts d)"
  shows "\<exists>a \<in> set (users d). user_pk a = author_id p \<and> Post_author d p = Inr a"
proof -
  from assms have "distinct (map user_pk (users d))"
    and "author_id p \<in> user_pk ` set (users d)"
    by (simp_all add: wf_db_def)
  from get_by_key_value [OF this] show ?thesis
    by (auto simp: Post_author_def QuerySet_get_def)
qed

lemma User_ne_iff: "User_ne a ru \<longleftrightarrow> map_option user_pk ru \<noteq> Some (user_pk a)"
  by (cases ru) (auto simp: User_ne_def)

section \<open>The small database is well formed\<close>

lemmas blog_rows = alice_def bob_def travel_def drafts_def post1_def post2_def post3_def
  post4_def post5_def comment1_def

lemma wf_blog_db: "wf_db blog_db"
  by (simp add: wf_db_def blog_db_def blog_rows)

lemma blog_db_visible:
  "\<not> visible blog_db 100 post2" "\<not> visible blog_db 100 post3" "\<not> visible blog_db 100 post5"
  "visible blog_db 100 post1" "visible blog_db 100 post4"
  by (simp_all add: visible_def Post_category_def QuerySet_get_def blog_db_def blog_rows)

section \<open>The visibility gate of the post detail view\<close>

lemma PostDetailView_super_dispatch_GET:
  assumes "wf_db d" and "p \<in> set (posts d)" and "req_method request = GET"
  shows "PostDetailView_super_dispatch d request (post_pk p) =
           HttpResponse (detail_html p (Post_comments d p))"
  using assms
  by (simp add: PostDetailView_super_dispatch_def wf_post_lookup
      PostDetailView_get_context_data_def)

text \<open>
  Claim C1.  Take a post of a well-formed database and a request for its detail page.
  If the post fails the visibility invariant (it is not published, or its category is
  not published, or its publication date is after the current moment) and the
  requester is not its author (anonymous or another user), the response is
  \<open>HttpResponseNotFound\<close>, status 404, whatever the request's method.  If the
  requester is the author, a GET renders the detail page (status 200) although the post
  fails the invariant.  A post that satisfies the invariant is rendered on GET for
  every requester.
\<close>

theorem PostDetailView_dispatch_gate:
  assumes "wf_db d" and "p \<in> set (posts d)"
  shows "(\<not> visible d now p \<longrightarrow> map_option user_pk (user request) \<noteq> Some (author_id p) \<longrightarrow>
            PostDetailView_dispatch now d request (post_pk p) = HttpResponseNotFound) \<and>
         (\<not> visible d now p \<longrightarrow> map_option user_pk (user request) = Some (author_id p) \<longrightarrow>
            req_method request = GET \<longrightarrow>
            PostDetailView_dispatch now d request (post_pk p) =
              HttpResponse (detail_html p (Post_comments d p))) \<and>
         (visible d now p \<longrightarrow> req_method request = GET \<longrightarrow>
            PostDetailView_dispatch now d request (post_pk p) =
              HttpResponse (detail_html p (Post_comments d p)))"
proof -
  from wf_Post_category [OF assms] obtain c where
    c: "Post_category d p = Inr c" by blast
  from wf_Post_author [OF assms] obtain a where
    a: "Post_author d p = Inr a" "user_pk a = author_id p" by blast
  note look = wf_post_lookup [OF assms]
  note sup = PostDetailView_super_dispatch_GET [OF assms]
  show ?thesis
    by (auto simp: PostDetailView_dispatch_def look c a User_ne_iff visible_def sup Let_def)
qed

theorem PostDetailView_dispatch_gate_witness:
  "wf_db blog_db \<and> post2 \<in> set (posts blog_db) \<and> post1 \<in> set (posts blog_db) \<and>
   \<not> visible blog_db 100 post2 \<and> visible blog_db 100 post1 \<and>
   PostDetailView_dispatch 100 blog_db (get_as (Some bob)) 2 = HttpResponseNotFound \<and>
   PostDetailView_dispatch 100 blog_db (get_as None) 2 = HttpResponseNotFound \<and>
   PostDetailView_dispatch 100 blog_db (get_as (Some alice)) 2 =
     HttpResponse (detail_html post2 []) \<and>
   PostDetailView_dispatch 100 blog_db (get_as None) 1 =
     HttpResponse (detail_html post1 [comment1])"
  using PostDetailView_dispatch_gate [of blog_db post2 100 "get_as (Some bob)"]
    PostDetailView_dispatch_gate [of blog_db post2 100 "get_as None"]
    PostDetailView_dispatch_gate [of blog_db post2 100 "get_as (Some alice)"]
    PostDetailView_dispatch_gate [of blog_db post1 100 "get_as None"]
    wf_blog_db blog_db_visible
  by (simp add: blog_db_def get_as_def blog_rows Post_comments_def)

section \<open>The ownership gate of the update and delete views\<close>

lemma wf_comment_lookup:
  assumes "wf_db d" and "c \<in> set (comments d)"
  shows "get_object_or_404 (comments d) (\<lambda>r. comment_pk r = comment_pk c) = Inr c"
  using assms by (simp add: wf_db_def get_by_key)

lemma wf_Comment_author:
  assumes "wf_db d" and "c \<in> set (comments d)"
  shows "\<exists>a \<in> set (users d). user_pk a = comment_author_id c \<and> Comment_author d c = Inr a"
proof -
  from assms have "distinct (map user_pk (users d))"
    and "comment_author_id c \<in> user_pk ` set (users d)"
    by (simp_all add: wf_db_def)
  from get_by_key_value [OF this] show ?thesis
    by (auto simp: Comment_author_def QuerySet_get_def)
qed

lemma wf_Comment_post:
  assumes "wf_db d" and "c \<in> set (comments d)"
  shows "\<exists>p \<in> set (posts d). post_pk p = comment_post_id c \<and> Comment_post d c = Inr p"
proof -
  from assms have "distinct (map post_pk (posts d))"
    and "comment_post_id c \<in> post_pk ` set (posts d)"
    by (simp_all add: wf_db_def)
  from get_by_key_value [OF this] show ?thesis
    by (auto simp: Comment_post_def QuerySet_get_def)
qed

lemma PostDispatchMixin_dispatch_other:
  assumes "wf_db d" and "p \<in> set (posts d)"
    and "map_option user_pk (user request) \<noteq> Some (author_id p)"
  shows "PostDispatchMixin_dispatch super_dispatch d request (post_pk p) =
           (HttpResponseRedirect (blog_post_detail (post_pk p)), d)"
proof -
  from wf_Post_author [OF assms(1,2)] obtain a where
    "Post_author d p = Inr a" "user_pk a = author_id p" by blast
  with assms(3) show ?thesis
    by (simp add: PostDispatchMixin_dispatch_def wf_post_lookup [OF assms(1,2)] User_ne_iff)
qed

lemma PostDispatchMixin_dispatch_author:
  assumes "wf_db d" and "p \<in> set (posts d)"
    and "map_option user_pk (user request) = Some (author_id p)"
  shows "PostDispatchMixin_dispatch super_dispatch d request (post_pk p) =
           super_dispatch d request (post_pk p)"
proof -
  from wf_Post_author [OF assms(1,2)] obtain a where
    "Post_author d p = Inr a" "user_pk a = author_id p" by blast
  with assms(3) show ?thesis
    by (simp add: PostDispatchMixin_dispatch_def wf_post_lookup [OF assms(1,2)] User_ne_iff)
qed

lemma CommentMixin_dispatch_other:
  assumes "wf_db d" and "c \<in> set (comments d)"
    and "map_option user_pk (user request) \<noteq> Some (comment_author_id c)"
  shows "CommentMixin_dispatch super_dispatch d request (k, comment_pk c) =
           (HttpResponseRedirect (blog_post_detail (comment_post_id c)), d)"
proof -
  from wf_Comment_author [OF assms(1,2)] obtain a where
    a: "Comment_author d c = Inr a" "user_pk a = comment_author_id c" by blast
  from wf_Comment_post [OF assms(1,2)] obtain p where
    p: "Comment_post d c = Inr p" "post_pk p = comment_post_id c" by blast
  from a p assms(3) show ?thesis
    by (simp add: CommentMixin_dispatch_def wf_comment_lookup [OF assms(1,2)] User_ne_iff)
qed

lemma CommentMixin_dispatch_author:
  assumes "wf_db d" and "c \<in> set (comments d)"
    and "map_option user_pk (user request) = Some (comment_author_id c)"
  shows "CommentMixin_dispatch super_dispatch d request (k, comment_pk c) =
           super_dispatch d request (k, comment_pk c)"
proof -
  from wf_Comment_author [OF assms(1,2)] obtain a where
    a: "Comment_author d c = Inr a" "user_pk a = comment_author_id c" by blast
  from a assms(3) show ?thesis
    by (simp add: CommentMixin_dispatch_def wf_comment_lookup [OF assms(1,2)] User_ne_iff)
qed

lemma LoginRequiredMixin_dispatch_user:
  "user request = Some u \<Longrightarrow>
     LoginRequiredMixin_dispatch super_dispatch d request kwargs = super_dispatch d request kwargs"
  by (simp add: LoginRequiredMixin_dispatch_def)

lemma LoginRequiredMixin_dispatch_anonymous:
  "user request = None \<Longrightarrow>
     LoginRequiredMixin_dispatch super_dispatch d request kwargs = (HttpResponseRedirect login, d)"
  by (simp add: LoginRequiredMixin_dispatch_def)

lemma Comment_post_update:
  "Comment_post (Comment_update c' d) (c\<lparr>comment_text := t\<rparr>) = Comment_post d c"
  by (simp add: Comment_post_def Comment_update_def)

lemma PostDeleteView_View_dispatch_POST:
  assumes "wf_db d" and "p \<in> set (posts d)" and "req_method request = POST"
  shows "PostDeleteView_View_dispatch d request (post_pk p) =
           (HttpResponseRedirect blog_index, Post_delete p d)"
  using assms by (simp add: PostDeleteView_View_dispatch_def wf_post_lookup)

lemma CommentDeleteView_View_dispatch_POST:
  assumes "wf_db d" and "c \<in> set (comments d)" and "req_method request = POST"
  shows "CommentDeleteView_View_dispatch d request (k, comment_pk c) =
           (HttpResponseRedirect (blog_post_detail (comment_post_id c)), Comment_delete c d)"
proof -
  from wf_Comment_post [OF assms(1,2)] obtain p where
    p: "Comment_post d c = Inr p" "post_pk p = comment_post_id c" by blast
  with assms show ?thesis
    by (simp add: CommentDeleteView_View_dispatch_def wf_comment_lookup
        CommentMixin_get_success_url_def)
qed

lemma CommentUpdateView_View_dispatch_POST:
  assumes "wf_db d" and "c \<in> set (comments d)" and "req_method request = POST"
    and "CommentForm M (POST_data request) = Some t"
  shows "CommentUpdateView_View_dispatch M d request (k, comment_pk c) =
           (HttpResponseRedirect (blog_post_detail (comment_post_id c)),
            Comment_update (c\<lparr>comment_text := t\<rparr>) d)"
proof -
  from wf_Comment_post [OF assms(1,2)] obtain p where
    p: "Comment_post d c = Inr p" "post_pk p = comment_post_id c" by blast
  with assms show ?thesis
    by (simp add: CommentUpdateView_View_dispatch_def wf_comment_lookup
        CommentMixin_get_success_url_def Comment_post_update Let_def)
qed

lemma PostUpdateView_View_dispatch_GET:
  assumes "wf_db d" and "p \<in> set (posts d)" and "req_method request = GET"
  shows "PostUpdateView_View_dispatch M d request (post_pk p) =
           (HttpResponse (create_html (Some p)), d)"
  using assms by (simp add: PostUpdateView_View_dispatch_def wf_post_lookup)

lemma PostDeleteView_View_dispatch_GET:
  assumes "wf_db d" and "p \<in> set (posts d)" and "req_method request = GET"
  shows "PostDeleteView_View_dispatch d request (post_pk p) =
           (HttpResponse (create_html (Some p)), d)"
  using assms
  by (simp add: PostDeleteView_View_dispatch_def PostDeleteView_get_context_data_def
      wf_post_lookup)

lemma CommentUpdateView_View_dispatch_GET:
  assumes "wf_db d" and "c \<in> set (comments d)" and "req_method request = GET"
  shows "CommentUpdateView_View_dispatch M d request (k, comment_pk c) =
           (HttpResponse (comment_html (Some c)), d)"
  using assms
  by (simp add: CommentUpdateView_View_dispatch_def CommentUpdateView_get_context_data_def
      wf_comment_lookup)

lemma CommentDeleteView_View_dispatch_GET:
  assumes "wf_db d" and "c \<in> set (comments d)" and "req_method request = GET"
  shows "CommentDeleteView_View_dispatch d request (k, comment_pk c) =
           (HttpResponse (comment_html None), d)"
  using assms by (simp add: CommentDeleteView_View_dispatch_def wf_comment_lookup)

lemma blog_keys:
  "user_pk alice = 1" "user_pk bob = 2"
  "post_pk post1 = 1" "author_id post1 = 1" "post_pk post2 = 2" "author_id post2 = 1"
  "post_pk post3 = 3" "author_id post3 = 2" "post_pk post4 = 4" "author_id post4 = 2"
  "post_pk post5 = 5" "author_id post5 = 1"
  "comment_pk comment1 = 1" "comment_author_id comment1 = 2" "comment_post_id comment1 = 1"
  by (simp_all add: blog_rows)

lemma blog_members:
  "post1 \<in> set (posts blog_db)" "post2 \<in> set (posts blog_db)"
  "post3 \<in> set (posts blog_db)" "post4 \<in> set (posts blog_db)"
  "post5 \<in> set (posts blog_db)" "comment1 \<in> set (comments blog_db)"
  "alice \<in> set (users blog_db)" "bob \<in> set (users blog_db)"
  "travel \<in> set (categories blog_db)" "drafts \<in> set (categories blog_db)"
  by (simp_all add: blog_db_def)

subsection \<open>What the author's request leaves in the database\<close>

lemma map_replace_keys:
  assumes "k x' = k x"
  shows "map k (map (\<lambda>r. if k r = k x then x' else r) xs) = map k xs"
  using assms by (induction xs) auto

lemma replace_row_lookup:
  assumes "distinct (map k xs)" and "x \<in> set xs" and "k x' = k x"
  shows "get_object_or_404 (map (\<lambda>r. if k r = k x then x' else r) xs) (\<lambda>y. k y = k x) = Inr x'"
proof -
  let ?ys = "map (\<lambda>r. if k r = k x then x' else r) xs"
  have "map k ?ys = map k xs"
    using assms(3) by (rule map_replace_keys)
  with assms(1) have "distinct (map k ?ys)"
    by (simp only:)
  moreover have "x' \<in> set ?ys"
    using assms(2) by force
  ultimately have "get_object_or_404 ?ys (\<lambda>y. k y = k x') = Inr x'"
    by (rule get_by_key)
  then show ?thesis
    by (simp only: assms(3))
qed

lemma replace_row_others:
  assumes "y \<in> set xs" and "k y \<noteq> k x"
  shows "y \<in> set (map (\<lambda>r. if k r = k x then x' else r) xs)"
  using assms by force

lemma remove_row_lookup:
  "get_object_or_404 (filter (\<lambda>r. k r \<noteq> k x) xs) (\<lambda>y. k y = k x) = Inl Http404"
proof -
  have "filter (\<lambda>y. k y = k x) (filter (\<lambda>r. k r \<noteq> k x) xs) = []"
    by (simp add: filter_empty_conv)
  then show ?thesis
    by (simp add: get_object_or_404_def QuerySet_get_def)
qed

lemma author_PostUpdateView_POST:
  assumes "wf_db d" and "p \<in> set (posts d)" and "req_method request = POST"
    and "PostForm M d (POST_data request) = Some cd"
  shows "PostUpdateView_View_dispatch M d request (post_pk p) =
           ((case Post_get_absolute_url M
                    (p\<lparr>title := cleaned_title cd, post_text := cleaned_text cd,
                       pub_date := cleaned_pub_date cd, category_id := cleaned_category cd,
                       location_id := cleaned_location cd, post_image := cleaned_image cd\<rparr>) of
               None \<Rightarrow> HttpResponseServerError
             | Some target \<Rightarrow> HttpResponseRedirect target),
            d\<lparr>posts :=
                map (\<lambda>r. if post_pk r = post_pk p
                          then p\<lparr>title := cleaned_title cd, post_text := cleaned_text cd,
                                 pub_date := cleaned_pub_date cd,
                                 category_id := cleaned_category cd,
                                 location_id := cleaned_location cd,
                                 post_image := cleaned_image cd\<rparr>
                          else r)
                  (posts d)\<rparr>)"
  using assms
  by (simp add: PostUpdateView_View_dispatch_def wf_post_lookup Let_def Post_construct_def
      Post_update_def response_for_exception_def split: option.split)

lemma author_PostDeleteView_POST:
  assumes "wf_db d" and "p \<in> set (posts d)" and "req_method request = POST"
  shows "PostDeleteView_View_dispatch d request (post_pk p) =
           (HttpResponseRedirect blog_index,
            d\<lparr>posts := filter (\<lambda>r. post_pk r \<noteq> post_pk p) (posts d),
              comments := filter (\<lambda>r. comment_post_id r \<noteq> post_pk p) (comments d)\<rparr>)"
  using assms by (simp add: PostDeleteView_View_dispatch_POST Post_delete_def)

lemma author_CommentUpdateView_POST:
  assumes "wf_db d" and "c \<in> set (comments d)" and "req_method request = POST"
    and "CommentForm M (POST_data request) = Some t"
  shows "CommentUpdateView_View_dispatch M d request (k, comment_pk c) =
           (HttpResponseRedirect (blog_post_detail (comment_post_id c)),
            d\<lparr>comments :=
                map (\<lambda>r. if comment_pk r = comment_pk c then c\<lparr>comment_text := t\<rparr> else r)
                  (comments d)\<rparr>)"
  using assms by (simp add: CommentUpdateView_View_dispatch_POST Comment_update_def)

lemma author_CommentDeleteView_POST:
  assumes "wf_db d" and "c \<in> set (comments d)" and "req_method request = POST"
  shows "CommentDeleteView_View_dispatch d request (k, comment_pk c) =
           (HttpResponseRedirect (blog_post_detail (comment_post_id c)),
            d\<lparr>comments := filter (\<lambda>r. comment_pk r \<noteq> comment_pk c) (comments d)\<rparr>)"
  using assms by (simp add: CommentDeleteView_View_dispatch_POST Comment_delete_def)

text \<open>
  Claim C2.  In a well-formed database, take a request of a logged-in user \<open>u\<close>.  For
  every post \<open>p\<close> that \<open>u\<close> did not write, the post's update view and delete view answer
  with a redirect to the detail page of \<open>p\<close> and leave the database as it was; for every
  comment \<open>c\<close> that \<open>u\<close> did not write, the comment's update view and delete view answer
  with a redirect to the detail page of the post \<open>c\<close> is on and leave the database as it
  was.  For the author the views proceed.  A GET renders the form.  A POST with a valid
  form to an update view replaces the row by the row with the cleaned fields, in the
  table that is left, where a lookup by the same key now finds the edited row; the
  comment view redirects to the post's detail page and the post view to the address the
  model gives for the edited post (a 500 response if the model gives none, the row
  being saved all the same).  A POST to a delete view removes the row (and, for a post,
  the comments on it) from the table that is left, where a lookup by its key finds
  nothing, and redirects to the index for a post and to the post's detail page for a
  comment.
\<close>

theorem ownership_gate:
  assumes "wf_db d" and "user request = Some u"
  shows
    "(p \<in> set (posts d) \<longrightarrow> user_pk u \<noteq> author_id p \<longrightarrow>
        PostUpdateView M d request (post_pk p) =
          (HttpResponseRedirect (blog_post_detail (post_pk p)), d) \<and>
        PostDeleteView d request (post_pk p) =
          (HttpResponseRedirect (blog_post_detail (post_pk p)), d)) \<and>
     (c \<in> set (comments d) \<longrightarrow> user_pk u \<noteq> comment_author_id c \<longrightarrow>
        CommentUpdateView M d request (k, comment_pk c) =
          (HttpResponseRedirect (blog_post_detail (comment_post_id c)), d) \<and>
        CommentDeleteView d request (k, comment_pk c) =
          (HttpResponseRedirect (blog_post_detail (comment_post_id c)), d)) \<and>
     (p \<in> set (posts d) \<longrightarrow> user_pk u = author_id p \<longrightarrow>
        (req_method request = GET \<longrightarrow>
           PostUpdateView M d request (post_pk p) = (HttpResponse (create_html (Some p)), d) \<and>
           PostDeleteView d request (post_pk p) = (HttpResponse (create_html (Some p)), d)) \<and>
        (req_method request = POST \<longrightarrow> PostForm M d (POST_data request) = Some cd \<longrightarrow>
           PostUpdateView M d request (post_pk p) =
             ((case Post_get_absolute_url M
                      (p\<lparr>title := cleaned_title cd, post_text := cleaned_text cd,
                         pub_date := cleaned_pub_date cd, category_id := cleaned_category cd,
                         location_id := cleaned_location cd, post_image := cleaned_image cd\<rparr>) of
                 None \<Rightarrow> HttpResponseServerError
               | Some target \<Rightarrow> HttpResponseRedirect target),
              d\<lparr>posts :=
                  map (\<lambda>r. if post_pk r = post_pk p
                            then p\<lparr>title := cleaned_title cd, post_text := cleaned_text cd,
                                   pub_date := cleaned_pub_date cd,
                                   category_id := cleaned_category cd,
                                   location_id := cleaned_location cd,
                                   post_image := cleaned_image cd\<rparr>
                            else r)
                    (posts d)\<rparr>) \<and>
           get_object_or_404 (posts (snd (PostUpdateView M d request (post_pk p))))
               (\<lambda>q. post_pk q = post_pk p) =
             Inr (p\<lparr>title := cleaned_title cd, post_text := cleaned_text cd,
                    pub_date := cleaned_pub_date cd, category_id := cleaned_category cd,
                    location_id := cleaned_location cd, post_image := cleaned_image cd\<rparr>)) \<and>
        (req_method request = POST \<longrightarrow>
           PostDeleteView d request (post_pk p) =
             (HttpResponseRedirect blog_index,
              d\<lparr>posts := filter (\<lambda>r. post_pk r \<noteq> post_pk p) (posts d),
                comments := filter (\<lambda>r. comment_post_id r \<noteq> post_pk p) (comments d)\<rparr>) \<and>
           p \<notin> set (posts (snd (PostDeleteView d request (post_pk p)))) \<and>
           get_object_or_404 (posts (snd (PostDeleteView d request (post_pk p))))
               (\<lambda>q. post_pk q = post_pk p) =
             Inl Http404)) \<and>
     (c \<in> set (comments d) \<longrightarrow> user_pk u = comment_author_id c \<longrightarrow>
        (req_method request = GET \<longrightarrow>
           CommentUpdateView M d request (k, comment_pk c) =
             (HttpResponse (comment_html (Some c)), d) \<and>
           CommentDeleteView d request (k, comment_pk c) =
             (HttpResponse (comment_html None), d)) \<and>
        (req_method request = POST \<longrightarrow> CommentForm M (POST_data request) = Some t \<longrightarrow>
           CommentUpdateView M d request (k, comment_pk c) =
             (HttpResponseRedirect (blog_post_detail (comment_post_id c)),
              d\<lparr>comments :=
                  map (\<lambda>r. if comment_pk r = comment_pk c then c\<lparr>comment_text := t\<rparr> else r)
                    (comments d)\<rparr>) \<and>
           get_object_or_404 (comments (snd (CommentUpdateView M d request (k, comment_pk c))))
               (\<lambda>r. comment_pk r = comment_pk c) =
             Inr (c\<lparr>comment_text := t\<rparr>)) \<and>
        (req_method request = POST \<longrightarrow>
           CommentDeleteView d request (k, comment_pk c) =
             (HttpResponseRedirect (blog_post_detail (comment_post_id c)),
              d\<lparr>comments := filter (\<lambda>r. comment_pk r \<noteq> comment_pk c) (comments d)\<rparr>) \<and>
           c \<notin> set (comments (snd (CommentDeleteView d request (k, comment_pk c)))) \<and>
           get_object_or_404 (comments (snd (CommentDeleteView d request (k, comment_pk c))))
               (\<lambda>r. comment_pk r = comment_pk c) =
             Inl Http404))"
    (is "_ \<and> _ \<and>
         (_ \<longrightarrow> _ \<longrightarrow> ?post_author) \<and>
         (_ \<longrightarrow> _ \<longrightarrow> ?comment_author)")
proof -
  note wf = assms(1)
  note u = assms(2)
  note lr = LoginRequiredMixin_dispatch_user [OF assms(2)]
  have pks: "distinct (map post_pk (posts d))" "distinct (map comment_pk (comments d))"
    using wf by (simp_all add: wf_db_def)
  have A: "PostUpdateView M d request (post_pk p) =
          (HttpResponseRedirect (blog_post_detail (post_pk p)), d) \<and>
        PostDeleteView d request (post_pk p) =
          (HttpResponseRedirect (blog_post_detail (post_pk p)), d)"
    if "p \<in> set (posts d)" "user_pk u \<noteq> author_id p"
    using that
    by (simp add: u PostUpdateView_def PostDeleteView_def
        PostDispatchMixin_dispatch_other [OF wf])
  have B: "CommentUpdateView M d request (k, comment_pk c) =
          (HttpResponseRedirect (blog_post_detail (comment_post_id c)), d) \<and>
        CommentDeleteView d request (k, comment_pk c) =
          (HttpResponseRedirect (blog_post_detail (comment_post_id c)), d)"
    if "c \<in> set (comments d)" "user_pk u \<noteq> comment_author_id c"
    using that
    by (simp add: u CommentUpdateView_def CommentDeleteView_def lr
        CommentMixin_dispatch_other [OF wf])
  have C: "PostUpdateView M d request (post_pk p) =
          PostUpdateView_View_dispatch M d request (post_pk p)"
      "PostDeleteView d request (post_pk p) =
          PostDeleteView_View_dispatch d request (post_pk p)"
    if "p \<in> set (posts d)" "user_pk u = author_id p"
    using that
    by (simp_all add: u PostUpdateView_def PostDeleteView_def lr
        PostDispatchMixin_dispatch_author [OF wf])
  have D: "CommentUpdateView M d request (k, comment_pk c) =
          CommentUpdateView_View_dispatch M d request (k, comment_pk c)"
      "CommentDeleteView d request (k, comment_pk c) =
          CommentDeleteView_View_dispatch d request (k, comment_pk c)"
    if "c \<in> set (comments d)" "user_pk u = comment_author_id c"
    using that
    by (simp_all add: u CommentUpdateView_def CommentDeleteView_def lr
        CommentMixin_dispatch_author [OF wf])
  have E: ?post_author if p: "p \<in> set (posts d)" and a: "user_pk u = author_id p"
  proof -
    note C' = C [OF p a]
    show ?thesis
      using p pks(1)
      by (simp add: C' PostUpdateView_View_dispatch_GET [OF wf p]
          PostDeleteView_View_dispatch_GET [OF wf p]
          author_PostUpdateView_POST [OF wf p] author_PostDeleteView_POST [OF wf p]
          replace_row_lookup remove_row_lookup)
  qed
  have F: ?comment_author if c: "c \<in> set (comments d)" and a: "user_pk u = comment_author_id c"
  proof -
    note D' = D [OF c a]
    show ?thesis
      using c pks(2)
      by (simp add: D' CommentUpdateView_View_dispatch_GET [OF wf c]
          CommentDeleteView_View_dispatch_GET [OF wf c]
          author_CommentUpdateView_POST [OF wf c] author_CommentDeleteView_POST [OF wf c]
          replace_row_lookup remove_row_lookup)
  qed
  show ?thesis
    using A B E F by blast
qed

lemma PostForm_edit_data:
  "PostForm blog_models blog_db edit_data =
     Some \<lparr>cleaned_title = ''New'', cleaned_text = ''edited'', cleaned_pub_date = 60,
           cleaned_category = 2, cleaned_location = None, cleaned_image = []\<rparr>"
  by code_simp

lemma PostForm_short_data: "PostForm blog_models blog_db short_data = None"
  by code_simp

lemma CommentForm_edit_data: "CommentForm blog_models edit_data = Some ''edited''"
  by (simp add: CommentForm_def blog_models_def ModelForm_data_def CommentForm_Meta_fields_def
      edit_data_def)

theorem ownership_gate_witness:
  "wf_db blog_db \<and>
   post1 \<in> set (posts blog_db) \<and> comment1 \<in> set (comments blog_db) \<and>
   user_pk bob \<noteq> author_id post1 \<and> user_pk alice = author_id post1 \<and>
   user_pk alice \<noteq> comment_author_id comment1 \<and> user_pk bob = comment_author_id comment1 \<and>
   PostUpdateView blog_models blog_db (post_as (Some bob) edit_data) 1 =
     (HttpResponseRedirect (blog_post_detail 1), blog_db) \<and>
   PostDeleteView blog_db (post_as (Some bob) edit_data) 1 =
     (HttpResponseRedirect (blog_post_detail 1), blog_db) \<and>
   CommentUpdateView blog_models blog_db (post_as (Some alice) edit_data) (1, 1) =
     (HttpResponseRedirect (blog_post_detail 1), blog_db) \<and>
   CommentDeleteView blog_db (post_as (Some alice) edit_data) (1, 1) =
     (HttpResponseRedirect (blog_post_detail 1), blog_db) \<and>
   PostUpdateView blog_models blog_db (get_as (Some alice)) 1 =
     (HttpResponse (create_html (Some post1)), blog_db) \<and>
   CommentUpdateView blog_models blog_db (get_as (Some bob)) (1, 1) =
     (HttpResponse (comment_html (Some comment1)), blog_db) \<and>
   PostForm blog_models blog_db edit_data =
     Some \<lparr>cleaned_title = ''New'', cleaned_text = ''edited'', cleaned_pub_date = 60,
           cleaned_category = 2, cleaned_location = None, cleaned_image = []\<rparr> \<and>
   fst (PostUpdateView blog_models blog_db (post_as (Some alice) edit_data) 1) =
     HttpResponseRedirect (blog_post_detail 1) \<and>
   get_object_or_404
       (posts (snd (PostUpdateView blog_models blog_db (post_as (Some alice) edit_data) 1)))
       (\<lambda>q. post_pk q = 1) =
     Inr (post1\<lparr>title := ''New'', post_text := ''edited'', pub_date := 60, category_id := 2,
               location_id := None, post_image := []\<rparr>) \<and>
   fst (PostDeleteView blog_db (post_as (Some alice) edit_data) 1) =
     HttpResponseRedirect blog_index \<and>
   post1 \<notin> set (posts (snd (PostDeleteView blog_db (post_as (Some alice) edit_data) 1))) \<and>
   CommentForm blog_models edit_data = Some ''edited'' \<and>
   fst (CommentUpdateView blog_models blog_db (post_as (Some bob) edit_data) (1, 1)) =
     HttpResponseRedirect (blog_post_detail 1) \<and>
   get_object_or_404
       (comments (snd (CommentUpdateView blog_models blog_db (post_as (Some bob) edit_data)
          (1, 1))))
       (\<lambda>r. comment_pk r = 1) =
     Inr (comment1\<lparr>comment_text := ''edited''\<rparr>) \<and>
   fst (CommentDeleteView blog_db (post_as (Some bob) edit_data) (1, 1)) =
     HttpResponseRedirect (blog_post_detail 1) \<and>
   comment1 \<notin> set (comments (snd (CommentDeleteView blog_db (post_as (Some bob) edit_data)
      (1, 1))))"
proof -
  let ?cd = "\<lparr>cleaned_title = ''New'', cleaned_text = ''edited'', cleaned_pub_date = 60,
           cleaned_category = 2, cleaned_location = None, cleaned_image = []\<rparr>"
  have req: "user (post_as (Some bob) edit_data) = Some bob"
    "user (post_as (Some alice) edit_data) = Some alice"
    "req_method (post_as (Some bob) edit_data) = POST"
    "req_method (post_as (Some alice) edit_data) = POST"
    "POST_data (post_as (Some bob) edit_data) = edit_data"
    "POST_data (post_as (Some alice) edit_data) = edit_data"
    "user (get_as (Some bob)) = Some bob" "user (get_as (Some alice)) = Some alice"
    "req_method (get_as (Some bob)) = GET" "req_method (get_as (Some alice)) = GET"
    by (simp_all add: post_as_def get_as_def)
  have url: "Post_get_absolute_url blog_models q = Some (blog_post_detail (post_pk q))" for q
    by (simp add: blog_models_def)
  note facts = req url blog_keys blog_members PostForm_edit_data CommentForm_edit_data
  note bob_inst = ownership_gate [OF wf_blog_db req(1), where p = post1 and c = comment1
      and M = blog_models and k = 1 and t = "''edited''" and cd = ?cd]
  note alice_inst = ownership_gate [OF wf_blog_db req(2), where p = post1 and c = comment1
      and M = blog_models and k = 1 and t = "''edited''" and cd = ?cd]
  note bob_get = ownership_gate [OF wf_blog_db req(7), where p = post1 and c = comment1
      and M = blog_models and k = 1]
  note alice_get = ownership_gate [OF wf_blog_db req(8), where p = post1 and c = comment1
      and M = blog_models and k = 1]
  from bob_inst
  have bob_post: "PostUpdateView blog_models blog_db (post_as (Some bob) edit_data) 1 =
       (HttpResponseRedirect (blog_post_detail 1), blog_db)"
      "PostDeleteView blog_db (post_as (Some bob) edit_data) 1 =
       (HttpResponseRedirect (blog_post_detail 1), blog_db)"
    by (auto simp add: facts)
  from bob_inst
  have bob_comment:
      "fst (CommentUpdateView blog_models blog_db (post_as (Some bob) edit_data) (1, 1)) =
         HttpResponseRedirect (blog_post_detail 1)"
      "get_object_or_404
         (comments (snd (CommentUpdateView blog_models blog_db (post_as (Some bob) edit_data)
            (1, 1))))
         (\<lambda>r. comment_pk r = 1) =
       Inr (comment1\<lparr>comment_text := ''edited''\<rparr>)"
      "fst (CommentDeleteView blog_db (post_as (Some bob) edit_data) (1, 1)) =
         HttpResponseRedirect (blog_post_detail 1)"
      "comment1 \<notin> set (comments (snd (CommentDeleteView blog_db
          (post_as (Some bob) edit_data) (1, 1))))"
    by (auto simp add: facts)
  from alice_inst
  have alice_comment:
      "CommentUpdateView blog_models blog_db (post_as (Some alice) edit_data) (1, 1) =
         (HttpResponseRedirect (blog_post_detail 1), blog_db)"
      "CommentDeleteView blog_db (post_as (Some alice) edit_data) (1, 1) =
         (HttpResponseRedirect (blog_post_detail 1), blog_db)"
    by (auto simp add: facts)
  from alice_inst
  have alice_post:
      "fst (PostUpdateView blog_models blog_db (post_as (Some alice) edit_data) 1) =
         HttpResponseRedirect (blog_post_detail 1)"
      "get_object_or_404
         (posts (snd (PostUpdateView blog_models blog_db (post_as (Some alice) edit_data) 1)))
         (\<lambda>q. post_pk q = 1) =
       Inr (post1\<lparr>title := ''New'', post_text := ''edited'', pub_date := 60, category_id := 2,
                 location_id := None, post_image := []\<rparr>)"
      "fst (PostDeleteView blog_db (post_as (Some alice) edit_data) 1) =
         HttpResponseRedirect blog_index"
      "post1 \<notin> set (posts (snd (PostDeleteView blog_db (post_as (Some alice) edit_data) 1)))"
    by (auto simp add: facts)
  from alice_get bob_get
  have gets: "PostUpdateView blog_models blog_db (get_as (Some alice)) 1 =
       (HttpResponse (create_html (Some post1)), blog_db)"
      "CommentUpdateView blog_models blog_db (get_as (Some bob)) (1, 1) =
       (HttpResponse (comment_html (Some comment1)), blog_db)"
    by (auto simp add: facts)
  show ?thesis
    using bob_post bob_comment alice_comment alice_post gets wf_blog_db
      PostForm_edit_data CommentForm_edit_data
    by (simp only: blog_keys blog_members simp_thms) simp
qed

section \<open>Anonymous requests\<close>

lemma anonymous_post_views:
  assumes "wf_db d" and "p \<in> set (posts d)" and "user request = None"
  shows "PostUpdateView M d request (post_pk p) =
           (HttpResponseRedirect (blog_post_detail (post_pk p)), d) \<and>
         PostDeleteView d request (post_pk p) =
           (HttpResponseRedirect (blog_post_detail (post_pk p)), d)"
  using assms
  by (simp add: PostUpdateView_def PostDeleteView_def PostDispatchMixin_dispatch_other)

lemma anonymous_login_required:
  assumes "user request = None"
  shows "PostCreateView M d request () = (HttpResponseRedirect login, d)"
    and "CommentUpdateView M d request kwargs = (HttpResponseRedirect login, d)"
    and "CommentDeleteView d request kwargs = (HttpResponseRedirect login, d)"
  using assms
  by (simp_all add: PostCreateView_def CommentUpdateView_def CommentDeleteView_def
      LoginRequiredMixin_dispatch_def)

lemma anonymous_CommentCreateView:
  assumes "user request = None"
  shows "CommentCreateView_dispatch M d request post_id =
           (case get_object_or_404 (posts d) (\<lambda>p. post_pk p = post_id) of
              Inl e \<Rightarrow> (response_for_exception e, d)
            | Inr _ \<Rightarrow> (HttpResponseRedirect login, d))"
  using assms
  by (simp add: CommentCreateView_dispatch_def LoginRequiredMixin_dispatch_def split: sum.split)

text \<open>
  Claim C3, at the input where the code departs from it.  The anonymous user who asks
  for the update view or the delete view of post 1 is redirected to the detail page of
  that post, not to the login page: \<open>PostDispatchMixin.dispatch\<close> runs before
  \<open>LoginRequiredMixin.dispatch\<close> and the anonymous user is not the author.  For a post
  that does not exist, the post update view and the comment create view answer 404
  before any login check.
\<close>

theorem PostUpdateView_anonymous:
  "PostUpdateView blog_models blog_db (get_as None) 1 =
     (HttpResponseRedirect (blog_post_detail 1), blog_db) \<and>
   PostDeleteView blog_db (post_as None Map.empty) 1 =
     (HttpResponseRedirect (blog_post_detail 1), blog_db) \<and>
   PostUpdateView blog_models blog_db (get_as None) 9 = (HttpResponseNotFound, blog_db) \<and>
   CommentCreateView_dispatch blog_models blog_db (get_as None) 9 =
     (HttpResponseNotFound, blog_db)"
proof -
  have missing: "get_object_or_404 (posts blog_db) (\<lambda>p. post_pk p = 9) = Inl Http404"
    by (simp add: get_object_or_404_def QuerySet_get_def blog_db_def blog_keys)
  have "PostUpdateView blog_models blog_db (get_as None) 9 = (HttpResponseNotFound, blog_db)"
    by (simp add: PostUpdateView_def PostDispatchMixin_dispatch_def missing
        response_for_exception_def)
  moreover
  have "CommentCreateView_dispatch blog_models blog_db (get_as None) 9 =
          (HttpResponseNotFound, blog_db)"
    by (simp add: CommentCreateView_dispatch_def missing response_for_exception_def)
  moreover
  have "user (get_as None) = None" "user (post_as None Map.empty) = None"
    by (simp_all add: get_as_def post_as_def)
  note anonymous_post_views [OF wf_blog_db blog_members(1) this(1), of blog_models]
    anonymous_post_views [OF wf_blog_db blog_members(1) this(2), of blog_models]
  ultimately show ?thesis
    by (simp add: blog_keys)
qed

section \<open>Creating a comment\<close>

lemma CommentForm_reads_text:
  assumes "data ''text'' = data' ''text''"
  shows "CommentForm M data = CommentForm M data'"
proof -
  have "ModelForm_data CommentForm_Meta_fields data = ModelForm_data CommentForm_Meta_fields data'"
    using assms by (auto simp: ModelForm_data_def CommentForm_Meta_fields_def)
  then show ?thesis by (simp add: CommentForm_def)
qed

text \<open>
  Claim C4.  In a well-formed database, take a POST of a logged-in user \<open>u\<close> to the
  comment create view of a post \<open>p\<close>, named in the address.  If the form is valid with
  cleaned text \<open>t\<close>, the view appends one comment, whose author is \<open>u\<close>, whose post is
  \<open>p\<close> and whose text is \<open>t\<close>, and redirects to the detail page of \<open>p\<close>; if the form
  is not valid, the database is left as it was.  Submitted data that agrees on the
  \<open>text\<close> field gives the same response and the same database, whatever else it
  holds (an \<open>author\<close>, a \<open>post\<close>).
\<close>

theorem CommentCreateView_stamps:
  assumes "wf_db d" and "p \<in> set (posts d)" and "user request = Some u"
    and "req_method request = POST"
  shows "(CommentForm M (POST_data request) = Some t \<longrightarrow>
            CommentCreateView_dispatch M d request (post_pk p) =
              (HttpResponseRedirect (blog_post_detail (post_pk p)),
               d\<lparr>comments := comments d @
                        [\<lparr>comment_pk = next_pk (map comment_pk (comments d)),
                          comment_text = t, comment_author_id = user_pk u,
                          comment_post_id = post_pk p\<rparr>]\<rparr>)) \<and>
         (CommentForm M (POST_data request) = None \<longrightarrow>
            snd (CommentCreateView_dispatch M d request (post_pk p)) = d) \<and>
         (data ''text'' = POST_data request ''text'' \<longrightarrow>
            CommentCreateView_dispatch M d (request\<lparr>POST_data := data\<rparr>) (post_pk p) =
              CommentCreateView_dispatch M d request (post_pk p))"
proof -
  have "CommentForm M data = CommentForm M (POST_data request)"
    if "data ''text'' = POST_data request ''text''"
    using that by (rule CommentForm_reads_text)
  then show ?thesis
    using assms(3,4)
    by (simp add: CommentCreateView_dispatch_def wf_post_lookup [OF assms(1,2)]
        LoginRequiredMixin_dispatch_def CommentCreateView_View_dispatch_def
        CommentCreateView_form_valid_def Comment_insert_def split: option.split)
qed

lemma CommentForm_forged_data: "CommentForm blog_models forged_data = Some ''edited''"
  by (simp add: CommentForm_def blog_models_def ModelForm_data_def CommentForm_Meta_fields_def
      forged_data_def)

lemma CommentForm_empty: "CommentForm blog_models Map.empty = None"
  by (simp add: CommentForm_def blog_models_def ModelForm_data_def CommentForm_Meta_fields_def)

lemma next_pk_blog_comments: "next_pk (map comment_pk (comments blog_db)) = 2"
  by (simp add: next_pk_def blog_db_def blog_keys)

theorem CommentCreateView_stamps_witness:
  "wf_db blog_db \<and> post3 \<in> set (posts blog_db) \<and>
   CommentForm blog_models forged_data = Some ''edited'' \<and>
   CommentCreateView_dispatch blog_models blog_db (post_as (Some alice) forged_data) 3 =
     (HttpResponseRedirect (blog_post_detail 3),
      blog_db\<lparr>comments := comments blog_db @
                 [\<lparr>comment_pk = 2, comment_text = ''edited'', comment_author_id = 1,
                   comment_post_id = 3\<rparr>]\<rparr>) \<and>
   CommentCreateView_dispatch blog_models blog_db
       (post_as (Some alice) [''text'' \<mapsto> ''edited'']) 3 =
     CommentCreateView_dispatch blog_models blog_db (post_as (Some alice) forged_data) 3 \<and>
   CommentForm blog_models Map.empty = None \<and>
   snd (CommentCreateView_dispatch blog_models blog_db (post_as (Some alice) Map.empty) 3) =
     blog_db"
proof -
  let ?forged = "post_as (Some alice) forged_data"
  let ?empty = "post_as (Some alice) Map.empty"
  have forged: "user ?forged = Some alice" "req_method ?forged = POST"
    "POST_data ?forged = forged_data"
    and empty: "user ?empty = Some alice" "req_method ?empty = POST"
    "POST_data ?empty = Map.empty"
    by (simp_all add: post_as_def)
  have same_text: "[''text'' \<mapsto> ''edited''] ''text'' = forged_data ''text''"
    by (simp add: forged_data_def)
  have only_text: "?forged\<lparr>POST_data := [''text'' \<mapsto> ''edited'']\<rparr> =
      post_as (Some alice) [''text'' \<mapsto> ''edited'']"
    by (simp add: post_as_def)
  from CommentCreateView_stamps [OF wf_blog_db blog_members(3) forged(1,2),
      of blog_models "''edited''" "[''text'' \<mapsto> ''edited'']"]
  have "CommentCreateView_dispatch blog_models blog_db ?forged 3 =
     (HttpResponseRedirect (blog_post_detail 3),
      blog_db\<lparr>comments := comments blog_db @
                 [\<lparr>comment_pk = 2, comment_text = ''edited'', comment_author_id = 1,
                   comment_post_id = 3\<rparr>]\<rparr>)"
    and "CommentCreateView_dispatch blog_models blog_db
       (post_as (Some alice) [''text'' \<mapsto> ''edited'']) 3 =
     CommentCreateView_dispatch blog_models blog_db ?forged 3"
    by (simp_all only: forged(3) same_text only_text CommentForm_forged_data blog_keys
        next_pk_blog_comments simp_thms)
  moreover
  from CommentCreateView_stamps [OF wf_blog_db blog_members(3) empty(1,2), of blog_models]
  have "snd (CommentCreateView_dispatch blog_models blog_db ?empty 3) = blog_db"
    by (simp only: empty(3) CommentForm_empty blog_keys simp_thms)
  ultimately show ?thesis
    using wf_blog_db blog_members(3) CommentForm_forged_data CommentForm_empty
    by (simp only: simp_thms)
qed

section \<open>Pages of a queryset\<close>

lemma POSTS_PER_PAGE_pos: "0 < POSTS_PER_PAGE"
  by (simp add: POSTS_PER_PAGE_def)

lemma Paginator_num_pages_ge1:
  assumes "0 < per_page"
  shows "1 \<le> Paginator_num_pages objs per_page"
proof -
  have "per_page \<le> max 1 (length objs) + per_page - 1"
    by linarith
  with assms have "0 < (max 1 (length objs) + per_page - 1) div per_page"
    by (simp only: div_greater_zero_iff)
  then show ?thesis
    by (simp add: Paginator_num_pages_def Let_def)
qed

lemma Paginator_num_pages_cover:
  assumes "0 < per_page"
  shows "length objs \<le> Paginator_num_pages objs per_page * per_page"
proof -
  let ?h = "max 1 (length objs)"
  have "?h \<le> ((?h + per_page - 1) div per_page) * per_page"
  proof -
    have "?h + per_page - 1 = ((?h + per_page - 1) div per_page) * per_page
            + (?h + per_page - 1) mod per_page"
      by simp
    moreover have "(?h + per_page - 1) mod per_page \<le> per_page - 1"
      using assms by (simp add: less_Suc_eq_le [symmetric])
    moreover have "1 \<le> ?h"
      by simp
    ultimately show ?thesis
      using assms by linarith
  qed
  then show ?thesis by (simp add: Paginator_num_pages_def Let_def)
qed

lemma slice_take:
  "take ((if length xs \<le> b + k then length xs else b + k) - b) (drop b xs) = take k (drop b xs)"
  by simp

lemma Paginator_page_slice:
  assumes "1 \<le> n" and "n \<le> Paginator_num_pages objs per_page"
  shows "Paginator_page objs per_page (Some (int n)) =
           Inr \<lparr>page_number = n, object_list = take per_page (drop ((n - 1) * per_page) objs)\<rparr>"
  using assms
  by (simp add: Paginator_page_def Paginator_validate_number_def Let_def)

lemma Paginator_page_Inr:
  assumes "Paginator_page objs per_page number = Inr pg"
  shows "\<exists>n. object_list pg = take per_page (drop ((n - 1) * per_page) objs) \<and> page_number pg = n
           \<and> 1 \<le> n \<and> n \<le> Paginator_num_pages objs per_page"
  using assms
  by (auto simp: Paginator_page_def Paginator_validate_number_def Let_def
      split: option.splits if_splits)

lemma Paginator_page_length:
  "Paginator_page objs per_page number = Inr pg \<Longrightarrow> length (object_list pg) \<le> per_page"
  by (auto dest!: Paginator_page_Inr)

lemma Paginator_page_subset:
  "Paginator_page objs per_page number = Inr pg \<Longrightarrow> set (object_list pg) \<subseteq> set objs"
  by (auto dest!: Paginator_page_Inr in_set_takeD in_set_dropD)

lemma Paginator_page_member:
  "Paginator_page objs per_page number = Inr pg \<Longrightarrow> obj \<in> set (object_list pg) \<Longrightarrow>
     obj \<in> set objs"
  using Paginator_page_subset by blast

lemma Paginator_get_page_Inr:
  assumes "0 < per_page"
  shows "\<exists>pg. Paginator_get_page objs per_page number = Inr pg"
  using Paginator_num_pages_ge1 [OF assms, of objs]
  by (auto simp: Paginator_get_page_def Paginator_validate_number_def Paginator_page_def Let_def
      split: option.splits sum.splits invalid_page.splits)

lemma Paginator_get_page_page:
  assumes "Paginator_get_page objs per_page number = Inr pg"
  shows "\<exists>number'. Paginator_page objs per_page number' = Inr pg"
  using assms
  by (auto simp: Paginator_get_page_def split: sum.splits invalid_page.splits)

lemma Paginator_get_page_valid:
  assumes "1 \<le> n" and "n \<le> Paginator_num_pages objs per_page"
  shows "Paginator_get_page objs per_page (Some (int n)) =
           Inr \<lparr>page_number = n, object_list = take per_page (drop ((n - 1) * per_page) objs)\<rparr>"
  using assms
  by (simp add: Paginator_get_page_def Paginator_validate_number_def Paginator_page_slice)

lemma paginate_queryset_Inr:
  assumes "paginate_queryset queryset page_size page = Inr pg"
  shows "\<exists>number. Paginator_page queryset page_size number = Inr pg"
  using assms
  by (auto simp: paginate_queryset_def split: sum.splits page_param.splits)

lemma paginate_queryset_valid:
  assumes "1 \<le> n" and "n \<le> Paginator_num_pages queryset page_size"
  shows "paginate_queryset queryset page_size (PageInt (int n)) =
           Inr \<lparr>page_number = n,
                object_list = take page_size (drop ((n - 1) * page_size) queryset)\<rparr>"
  using assms by (simp add: paginate_queryset_def Paginator_page_slice)

lemma concat_slices:
  "concat (map (\<lambda>n. take k (drop ((n - 1) * k) xs)) [1..<Suc m]) = take (m * k) xs"
proof (induction m)
  case 0
  then show ?case by simp
next
  case (Suc m)
  have "take (Suc m * k) xs = take (m * k) xs @ take k (drop (m * k) xs)"
    by (simp add: take_add [symmetric] add.commute)
  with Suc show ?case by simp
qed

lemma concat_pages:
  assumes "0 < k"
  shows "concat (map (\<lambda>n. take k (drop ((n - 1) * k) xs)) [1..<Suc (Paginator_num_pages xs k)]) = xs"
proof -
  have "concat (map (\<lambda>n. take k (drop ((n - 1) * k) xs)) [1..<Suc (Paginator_num_pages xs k)]) =
          take (Paginator_num_pages xs k * k) xs"
    by (rule concat_slices)
  also have "\<dots> = xs"
    using Paginator_num_pages_cover [OF assms, of xs] by simp
  finally show ?thesis .
qed

lemma map_upt_cong:
  assumes "\<And>n. 1 \<le> n \<Longrightarrow> n \<le> m \<Longrightarrow> f n = g n"
  shows "map f [1..<Suc m] = map g [1..<Suc m]"
  using assms by (intro map_cong) auto


section \<open>The listings\<close>

lemma get_object_or_404_Inr:
  assumes "get_object_or_404 xs P = Inr x"
  shows "x \<in> set xs \<and> P x"
proof -
  from assms have "filter P xs = [x]"
    by (auto simp: get_object_or_404_def QuerySet_get_def split: list.splits sum.splits exn.splits)
  then have "x \<in> set (filter P xs)" by simp
  then show ?thesis by simp
qed

lemma wf_category_by_slug:
  assumes "wf_db d" and "c \<in> set (categories d)"
  shows "filter (\<lambda>c'. slug c' = slug c \<and> category_is_published c') (categories d) =
           (if category_is_published c then [c] else [])"
proof -
  from assms have "filter (\<lambda>c'. slug c' = slug c) (categories d) = [c]"
    by (simp add: wf_db_def filter_key_unique)
  then have "filter category_is_published (filter (\<lambda>c'. slug c' = slug c) (categories d)) =
               (if category_is_published c then [c] else [])"
    by simp
  then show ?thesis by (simp only: filter_filter)
qed

lemma wf_category_lookup:
  assumes "wf_db d" and "c \<in> set (categories d)"
  shows "get_object_or_404 (categories d) (\<lambda>c'. slug c' = slug c \<and> category_is_published c') =
           (if category_is_published c then Inr c else Inl Http404)"
  by (simp add: get_object_or_404_def QuerySet_get_def wf_category_by_slug [OF assms])

lemma wf_user_lookup:
  assumes "wf_db d" and "u \<in> set (users d)"
  shows "get_object_or_404 (users d) (\<lambda>v. username v = username u) = Inr u"
  using assms by (simp add: wf_db_def get_by_key)

lemma wf_Post_category_eq:
  assumes "wf_db d" and "c \<in> set (categories d)" and "category_pk c = category_id p"
  shows "Post_category d p = Inr c"
proof -
  from assms(1,2) have "filter (\<lambda>y. category_pk y = category_pk c) (categories d) = [c]"
    by (simp add: wf_db_def filter_key_unique)
  with assms(3) show ?thesis by (simp add: Post_category_def QuerySet_get_def)
qed

lemma wf_slug_inj:
  assumes "wf_db d" and "c \<in> set (categories d)" and "c' \<in> set (categories d)"
    and "slug c = slug c'"
  shows "c = c'"
proof -
  from assms(1) have "inj_on slug (set (categories d))"
    by (simp add: wf_db_def distinct_map)
  with assms(2-4) show ?thesis by (auto dest: inj_onD)
qed

subsection \<open>What the querysets hold\<close>

lemma fst_Post_objects: "fst ` set (Post_objects d) = set (posts d)"
  by (force simp: Post_objects_def)

lemma set_QuerySet_filter: "set (QuerySet_filter P qs) = {obj \<in> set qs. P (fst obj)}"
  by (auto simp: QuerySet_filter_def)

lemma set_order_by: "set (order_by_pub_date_desc qs) = set qs"
  by (simp add: order_by_pub_date_desc_def)

lemma fst_annotate: "fst ` set (annotate_comment_count d qs) = fst ` set qs"
  by (force simp: annotate_comment_count_def)

lemma fst_filtered:
  "fst ` set (QuerySet_filter P (Post_objects d)) = {p \<in> set (posts d). P p}"
  by (force simp: QuerySet_filter_def Post_objects_def)

lemma IndexListView_queryset_posts:
  "fst ` set (IndexListView_queryset today d) =
     {p \<in> set (posts d). pub_date p \<le> today \<and> is_published p \<and> category__is_published d p}"
  by (simp add: IndexListView_queryset_def fst_annotate set_order_by fst_filtered)

lemma CategoryPostsListView_queryset_posts:
  "fst ` set (CategoryPostsListView_get_queryset today d s) =
     {p \<in> set (posts d). category__slug d p s \<and> is_published p \<and> pub_date p \<le> today}"
  by (simp add: CategoryPostsListView_get_queryset_def set_order_by fst_filtered)

lemma UserDetailView_post_list_posts:
  "fst ` set (UserDetailView_post_list d u) = {p \<in> set (posts d). author_id p = user_pk u}"
  by (simp add: UserDetailView_post_list_def User_posts_def fst_annotate set_order_by fst_filtered)

subsection \<open>What a listing response lists\<close>

lemma IndexListView_listing:
  "listing (IndexListView today d request) = [] \<or>
   (\<exists>number pg. Paginator_page (IndexListView_queryset today d) POSTS_PER_PAGE number = Inr pg \<and>
      listing (IndexListView today d request) = object_list pg)"
  by (auto simp: IndexListView_def listing_def response_for_exception_def
      dest!: paginate_queryset_Inr split: http_method.splits sum.splits exn.splits)

lemma CategoryPostsListView_listing:
  "listing (CategoryPostsListView today d request s) = [] \<or>
   (\<exists>number pg c.
      Paginator_page (CategoryPostsListView_get_queryset today d s) POSTS_PER_PAGE number = Inr pg \<and>
      get_object_or_404 (categories d) (\<lambda>c. slug c = s \<and> category_is_published c) = Inr c \<and>
      listing (CategoryPostsListView today d request s) = object_list pg)"
  by (auto simp: CategoryPostsListView_def CategoryPostsListView_get_context_data_def listing_def
      response_for_exception_def
      dest!: paginate_queryset_Inr split: http_method.splits sum.splits exn.splits)

lemma UserDetailView_listing:
  "listing (UserDetailView d request uname) = [] \<or>
   (\<exists>number pg profile.
      get_object_or_404 (users d) (\<lambda>u. username u = uname) = Inr profile \<and>
      Paginator_page (UserDetailView_post_list d profile) POSTS_PER_PAGE number = Inr pg \<and>
      listing (UserDetailView d request uname) = object_list pg)"
  by (auto simp: UserDetailView_def UserDetailView_get_context_data_def listing_def
      response_for_exception_def
      dest!: Paginator_get_page_page split: http_method.splits sum.splits exn.splits)

lemma IndexListView_page:
  assumes "1 \<le> n" and "n \<le> Paginator_num_pages (IndexListView_queryset today d) POSTS_PER_PAGE"
  shows "listing (IndexListView today d (page_request request n)) =
           take POSTS_PER_PAGE (drop ((n - 1) * POSTS_PER_PAGE) (IndexListView_queryset today d))"
  by (simp add: IndexListView_def page_request_def paginate_queryset_valid [OF assms] listing_def)

lemma CategoryPostsListView_page:
  assumes "wf_db d" and "c \<in> set (categories d)" and "category_is_published c"
    and "1 \<le> n"
    and "n \<le> Paginator_num_pages (CategoryPostsListView_get_queryset today d (slug c)) POSTS_PER_PAGE"
  shows "listing (CategoryPostsListView today d (page_request request n) (slug c)) =
           take POSTS_PER_PAGE
             (drop ((n - 1) * POSTS_PER_PAGE) (CategoryPostsListView_get_queryset today d (slug c)))"
  using assms(3)
  by (simp add: CategoryPostsListView_def CategoryPostsListView_get_context_data_def
      page_request_def paginate_queryset_valid [OF assms(4,5)] listing_def
      wf_category_lookup [OF assms(1,2)])

lemma UserDetailView_page:
  assumes "wf_db d" and "u \<in> set (users d)"
    and "1 \<le> n"
    and "n \<le> Paginator_num_pages (UserDetailView_post_list d u) POSTS_PER_PAGE"
  shows "listing (UserDetailView d (page_request request n) (username u)) =
           take POSTS_PER_PAGE (drop ((n - 1) * POSTS_PER_PAGE) (UserDetailView_post_list d u))"
  by (simp add: UserDetailView_def UserDetailView_get_context_data_def
      page_request_def Paginator_get_page_valid [OF assms(3,4)] listing_def
      wf_user_lookup [OF assms(1,2)] py_int_def)

lemma concat_listing_pages:
  assumes "\<And>n. 1 \<le> n \<Longrightarrow> n \<le> Paginator_num_pages qs POSTS_PER_PAGE \<Longrightarrow>
             f n = take POSTS_PER_PAGE (drop ((n - 1) * POSTS_PER_PAGE) qs)"
  shows "concat (map f [1..<Suc (Paginator_num_pages qs POSTS_PER_PAGE)]) = qs"
proof -
  have "map f [1..<Suc (Paginator_num_pages qs POSTS_PER_PAGE)] =
          map (\<lambda>n. take POSTS_PER_PAGE (drop ((n - 1) * POSTS_PER_PAGE) qs))
            [1..<Suc (Paginator_num_pages qs POSTS_PER_PAGE)]"
    using assms by (rule map_upt_cong)
  then show ?thesis
    by (simp only: concat_pages [OF POSTS_PER_PAGE_pos])
qed

lemma sum_listing_pages:
  assumes "\<And>n. 1 \<le> n \<Longrightarrow> n \<le> Paginator_num_pages qs POSTS_PER_PAGE \<Longrightarrow>
             f n = take POSTS_PER_PAGE (drop ((n - 1) * POSTS_PER_PAGE) qs)"
  shows "(\<Sum>n\<leftarrow>[1..<Suc (Paginator_num_pages qs POSTS_PER_PAGE)]. length (f n)) = length qs"
proof -
  have "(\<Sum>n\<leftarrow>[1..<Suc (Paginator_num_pages qs POSTS_PER_PAGE)]. length (f n)) =
          length (concat (map f [1..<Suc (Paginator_num_pages qs POSTS_PER_PAGE)]))"
    by (simp only: length_concat map_map comp_def)
  then show ?thesis
    by (simp only: concat_listing_pages [of qs f, OF assms])
qed

subsection \<open>Page sizes\<close>

text \<open>
  Claim C7.  Whatever the request, the page that the index, a category or a profile
  listing returns holds at most 10 posts.  Over the pages 1 to \<open>num_pages\<close> of a
  listing, the numbers of posts listed add up to the length of the listing's queryset:
  for the index always, for a category listing when the category is a published
  category of a well-formed database, for a profile when the user is one of a
  well-formed database (otherwise the view answers 404 and lists nothing).
\<close>

theorem listing_pagination:
  "length (listing (IndexListView today d request)) \<le> 10 \<and>
   length (listing (CategoryPostsListView now d request s)) \<le> 10 \<and>
   length (listing (UserDetailView d request uname)) \<le> 10 \<and>
   (\<Sum>n\<leftarrow>[1..<Suc (Paginator_num_pages (IndexListView_queryset today d) POSTS_PER_PAGE)].
        length (listing (IndexListView today d (page_request request n)))) =
     length (IndexListView_queryset today d) \<and>
   (wf_db d \<longrightarrow> c \<in> set (categories d) \<longrightarrow> category_is_published c \<longrightarrow>
      (\<Sum>n\<leftarrow>[1..<Suc (Paginator_num_pages (CategoryPostsListView_get_queryset now d (slug c))
                        POSTS_PER_PAGE)].
          length (listing (CategoryPostsListView now d (page_request request n) (slug c)))) =
        length (CategoryPostsListView_get_queryset now d (slug c))) \<and>
   (wf_db d \<longrightarrow> u \<in> set (users d) \<longrightarrow>
      (\<Sum>n\<leftarrow>[1..<Suc (Paginator_num_pages (UserDetailView_post_list d u) POSTS_PER_PAGE)].
          length (listing (UserDetailView d (page_request request n) (username u)))) =
        length (UserDetailView_post_list d u))"
proof -
  have ten: "POSTS_PER_PAGE = 10" by (simp add: POSTS_PER_PAGE_def)
  have "length (listing (IndexListView today d request)) \<le> POSTS_PER_PAGE"
    using IndexListView_listing [of today d request]
    by (auto dest: Paginator_page_length)
  moreover
  have "length (listing (CategoryPostsListView now d request s)) \<le> POSTS_PER_PAGE"
    using CategoryPostsListView_listing [of now d request s]
    by (auto dest: Paginator_page_length)
  moreover
  have "length (listing (UserDetailView d request uname)) \<le> POSTS_PER_PAGE"
    using UserDetailView_listing [of d request uname]
    by (auto dest: Paginator_page_length)
  moreover
  have "(\<Sum>n\<leftarrow>[1..<Suc (Paginator_num_pages (IndexListView_queryset today d) POSTS_PER_PAGE)].
        length (listing (IndexListView today d (page_request request n)))) =
     length (IndexListView_queryset today d)"
    by (rule sum_listing_pages) (rule IndexListView_page)
  moreover
  have "(\<Sum>n\<leftarrow>[1..<Suc (Paginator_num_pages (CategoryPostsListView_get_queryset now d (slug c))
                        POSTS_PER_PAGE)].
          length (listing (CategoryPostsListView now d (page_request request n) (slug c)))) =
        length (CategoryPostsListView_get_queryset now d (slug c))"
    if "wf_db d" "c \<in> set (categories d)" "category_is_published c"
    by (rule sum_listing_pages) (rule CategoryPostsListView_page [OF that])
  moreover
  have "(\<Sum>n\<leftarrow>[1..<Suc (Paginator_num_pages (UserDetailView_post_list d u) POSTS_PER_PAGE)].
          length (listing (UserDetailView d (page_request request n) (username u)))) =
        length (UserDetailView_post_list d u)"
    if "wf_db d" "u \<in> set (users d)"
    by (rule sum_listing_pages) (rule UserDetailView_page [OF that])
  ultimately show ?thesis
    unfolding ten by blast
qed


subsection \<open>Visibility of the listed posts\<close>

text \<open>
  Claim C5.  In a well-formed database, every post that the index lists satisfies the
  visibility invariant at the moment \<open>now\<close> of the request, provided the moment
  \<open>today\<close> at which the class \<open>IndexListView\<close> was defined is not after it; and every
  post that a category listing lists satisfies the invariant at the moment of the
  request.
\<close>

theorem listings_only_visible:
  assumes "wf_db d"
  shows "(today \<le> now \<longrightarrow>
            (\<forall>obj \<in> set (listing (IndexListView today d request)). visible d now (fst obj))) \<and>
         (\<forall>obj \<in> set (listing (CategoryPostsListView now d request s)). visible d now (fst obj))"
proof (intro conjI impI ballI)
  fix obj
  assume le: "today \<le> now" and obj: "obj \<in> set (listing (IndexListView today d request))"
  from obj IndexListView_listing [of today d request]
  have "obj \<in> set (IndexListView_queryset today d)"
    by (auto dest: Paginator_page_member)
  then have "fst obj \<in> fst ` set (IndexListView_queryset today d)"
    by (rule imageI)
  then have p: "fst obj \<in> set (posts d)" "pub_date (fst obj) \<le> today" "is_published (fst obj)"
    "category__is_published d (fst obj)"
    by (simp_all add: IndexListView_queryset_posts)
  from p(4) obtain c where c: "c \<in> set (categories d)" "category_pk c = category_id (fst obj)"
    "category_is_published c"
    by (auto simp: category__is_published_def)
  from wf_Post_category_eq [OF assms c(1,2)] c(3) p(2,3) le
  show "visible d now (fst obj)"
    by (simp add: visible_def)
next
  fix obj
  assume obj: "obj \<in> set (listing (CategoryPostsListView now d request s))"
  with CategoryPostsListView_listing [of now d request s]
  obtain c where "obj \<in> set (CategoryPostsListView_get_queryset now d s)"
    and found: "get_object_or_404 (categories d) (\<lambda>c. slug c = s \<and> category_is_published c) = Inr c"
    by (auto dest: Paginator_page_member)
  then have "fst obj \<in> fst ` set (CategoryPostsListView_get_queryset now d s)"
    by (intro imageI)
  then have p: "fst obj \<in> set (posts d)" "category__slug d (fst obj) s" "is_published (fst obj)"
    "pub_date (fst obj) \<le> now"
    by (simp_all add: CategoryPostsListView_queryset_posts)
  from get_object_or_404_Inr [OF found]
  have c: "c \<in> set (categories d)" "slug c = s" "category_is_published c"
    by simp_all
  from p(2) obtain c' where c': "c' \<in> set (categories d)" "category_pk c' = category_id (fst obj)"
    "slug c' = s"
    by (auto simp: category__slug_def)
  from wf_slug_inj [OF assms c(1) c'(1)] c(2) c'(3) have "c = c'"
    by simp
  with wf_Post_category_eq [OF assms c'(1,2)] c(3) p(3,4)
  show "visible d now (fst obj)"
    by (simp add: visible_def)
qed


lemma blog_index_listing:
  "listing (IndexListView 40 blog_db (get_as None)) = [(post1, Some 1)]"
  by code_simp

lemma blog_index_listing_now:
  "listing (IndexListView 100 blog_db (get_as None)) = [(post4, Some 0), (post1, Some 1)]"
  by code_simp

lemma blog_category_listing:
  "listing (CategoryPostsListView 100 blog_db (get_as None) ''travel'') =
     [(post4, None), (post1, None)]"
  by code_simp

lemma blog_profile_listing:
  "listing (UserDetailView blog_db (get_as None) ''alice'') =
     [(post5, Some 0), (post2, Some 0), (post1, Some 1)]"
  by code_simp

lemma blog_category_response:
  "CategoryPostsListView 100 blog_db (get_as None) ''travel'' =
     HttpResponse (category_html \<lparr>page_number = 1, object_list = [(post4, None), (post1, None)]\<rparr>
       travel)"
  by code_simp

theorem listings_only_visible_witness:
  "wf_db blog_db \<and> (40::int) \<le> 100 \<and>
   listing (IndexListView 40 blog_db (get_as None)) = [(post1, Some 1)] \<and>
   visible blog_db 100 post1 \<and>
   listing (CategoryPostsListView 100 blog_db (get_as None) ''travel'') =
     [(post4, None), (post1, None)] \<and>
   visible blog_db 100 post4"
  using listings_only_visible [OF wf_blog_db, of 40 100 "get_as None" "''travel''"]
    wf_blog_db blog_index_listing blog_category_listing
  by simp

subsection \<open>Order and annotation\<close>

lemma newest_first_order_by: "newest_first (order_by_pub_date_desc qs)"
proof -
  have "sorted (map (\<lambda>obj. - pub_date (fst obj)) (order_by_pub_date_desc qs))"
    unfolding order_by_pub_date_desc_def by (rule sorted_sort_key)
  then show ?thesis
    by (simp add: newest_first_def sorted_map)
qed

lemma newest_first_annotate:
  "newest_first qs \<Longrightarrow> newest_first (annotate_comment_count d qs)"
  by (simp add: newest_first_def annotate_comment_count_def sorted_wrt_map)

lemma newest_first_page:
  assumes "newest_first objs" and "Paginator_page objs per_page number = Inr pg"
  shows "newest_first (object_list pg)"
proof -
  from Paginator_page_Inr [OF assms(2)] obtain n where
    "object_list pg = take per_page (drop ((n - 1) * per_page) objs)" by blast
  with assms(1) show ?thesis
    by (simp add: newest_first_def sorted_wrt_take sorted_wrt_drop)
qed

lemma listings_newest_first:
  "newest_first (listing (IndexListView today d request))"
  "newest_first (listing (CategoryPostsListView now d request s))"
  "newest_first (listing (UserDetailView d request uname))"
proof -
  have nil: "newest_first []" by (simp add: newest_first_def)
  have "newest_first (IndexListView_queryset today d)"
    by (simp add: IndexListView_queryset_def newest_first_annotate newest_first_order_by)
  with IndexListView_listing [of today d request] nil
  show "newest_first (listing (IndexListView today d request))"
    by (auto dest: newest_first_page)
  have "newest_first (CategoryPostsListView_get_queryset now d s)"
    by (simp add: CategoryPostsListView_get_queryset_def newest_first_order_by)
  with CategoryPostsListView_listing [of now d request s] nil
  show "newest_first (listing (CategoryPostsListView now d request s))"
    by (auto dest: newest_first_page)
  have "newest_first (object_list pg)"
    if "Paginator_page (UserDetailView_post_list d profile) POSTS_PER_PAGE number = Inr pg"
    for profile number pg
    using that
    by (rule newest_first_page [rotated])
      (simp add: UserDetailView_post_list_def newest_first_annotate newest_first_order_by)
  with UserDetailView_listing [of d request uname] nil
  show "newest_first (listing (UserDetailView d request uname))"
    by auto
qed

lemma annotated_listings:
  assumes "obj \<in> set (listing (IndexListView today d request)) \<or>
           obj \<in> set (listing (UserDetailView d request uname))"
  shows "snd obj = Some (Count_comments d (fst obj))"
proof -
  have "snd obj = Some (Count_comments d (fst obj))"
    if "obj \<in> set (annotate_comment_count d qs)" for qs
    using that by (auto simp: annotate_comment_count_def)
  then show ?thesis
    using assms IndexListView_listing [of today d request]
      UserDetailView_listing [of d request uname]
    by (auto simp: IndexListView_queryset_def UserDetailView_post_list_def
        dest!: Paginator_page_member)
qed

lemma CategoryPostsListView_never_annotated:
  assumes "obj \<in> set (listing (CategoryPostsListView now d request s))"
  shows "snd obj = None"
  using assms CategoryPostsListView_listing [of now d request s]
  by (auto simp: CategoryPostsListView_get_queryset_def set_order_by set_QuerySet_filter
      Post_objects_def dest!: Paginator_page_member)

text \<open>
  Claim C6, at the input where the code departs from it.  The category listing of
  \<open>travel\<close> returns its posts newest first but without a comment count: post 1 has one
  comment and is listed with no \<open>comment_count\<close>, while the index lists the same two
  posts with their counts.  \<open>CategoryPostsListView.get_queryset\<close> has no \<open>annotate\<close>.
\<close>

theorem CategoryPostsListView_not_annotated:
  "listing (CategoryPostsListView 100 blog_db (get_as None) ''travel'') =
     [(post4, None), (post1, None)] \<and>
   Count_comments blog_db post1 = 1 \<and>
   listing (IndexListView 100 blog_db (get_as None)) = [(post4, Some 0), (post1, Some 1)]"
  by code_simp

subsection \<open>The profile page\<close>

lemma set_concat_pages:
  assumes "\<And>n. 1 \<le> n \<Longrightarrow> n \<le> Paginator_num_pages qs POSTS_PER_PAGE \<Longrightarrow>
             f n = take POSTS_PER_PAGE (drop ((n - 1) * POSTS_PER_PAGE) qs)"
  shows "(\<Union>n \<in> {1..Paginator_num_pages qs POSTS_PER_PAGE}. set (f n)) = set qs"
proof -
  have "set (concat (map f [1..<Suc (Paginator_num_pages qs POSTS_PER_PAGE)])) = set qs"
    by (simp only: concat_listing_pages [of qs f, OF assms])
  then show ?thesis
    by (simp only: set_concat set_map image_image set_upt atLeastLessThanSuc_atLeastAtMost)
qed

text \<open>
  Claim C8.  For a user \<open>u\<close> of a well-formed database, the pages of the profile
  listing of \<open>u\<close> hold, together, exactly the posts whose author is \<open>u\<close>: no condition
  on \<open>is_published\<close>, on the category or on \<open>pub_date\<close>.  The listing does not depend
  on who asks (\<open>requester\<close> is any user or the anonymous one), and on GET the view
  renders the profile page.
\<close>

theorem profile_lists_all_posts:
  assumes "wf_db d" and "u \<in> set (users d)"
  shows "fst ` (\<Union>n \<in> {1..Paginator_num_pages (UserDetailView_post_list d u) POSTS_PER_PAGE}.
                  set (listing (UserDetailView d (page_request request n) (username u)))) =
           {p \<in> set (posts d). author_id p = user_pk u} \<and>
         listing (UserDetailView d (request\<lparr>user := requester\<rparr>) (username u)) =
           listing (UserDetailView d request (username u)) \<and>
         (req_method request = GET \<longrightarrow>
            (\<exists>pg. UserDetailView d request (username u) =
                     HttpResponse (profile_html u pg (user request))))"
proof (intro conjI impI)
  have "(\<Union>n \<in> {1..Paginator_num_pages (UserDetailView_post_list d u) POSTS_PER_PAGE}.
           set (listing (UserDetailView d (page_request request n) (username u)))) =
          set (UserDetailView_post_list d u)"
    by (rule set_concat_pages) (rule UserDetailView_page [OF assms])
  then show "fst ` (\<Union>n \<in> {1..Paginator_num_pages (UserDetailView_post_list d u) POSTS_PER_PAGE}.
                  set (listing (UserDetailView d (page_request request n) (username u)))) =
           {p \<in> set (posts d). author_id p = user_pk u}"
    by (simp only: UserDetailView_post_list_posts)
next
  show "listing (UserDetailView d (request\<lparr>user := requester\<rparr>) (username u)) =
           listing (UserDetailView d request (username u))"
    by (simp add: UserDetailView_def UserDetailView_get_context_data_def listing_def
        split: http_method.split sum.split)
next
  assume "req_method request = GET"
  moreover
  from Paginator_get_page_Inr [OF POSTS_PER_PAGE_pos] obtain pg where
    "Paginator_get_page (UserDetailView_post_list d u) POSTS_PER_PAGE (py_int (GET_page request)) =
       Inr pg"
    by blast
  ultimately
  show "\<exists>pg. UserDetailView d request (username u) =
                HttpResponse (profile_html u pg (user request))"
    by (simp add: UserDetailView_def UserDetailView_get_context_data_def
        wf_user_lookup [OF assms])
qed


subsection \<open>The pages of the small database\<close>

lemma blog_names: "username alice = ''alice''" "username bob = ''bob''"
  "slug travel = ''travel''" "slug drafts = ''drafts''"
  "category_is_published travel" "\<not> category_is_published drafts"
  "category_pk travel = 1" "category_pk drafts = 2"
  "category_id post3 = 2" "pub_date post4 = 50"
  by (simp_all add: blog_rows)

lemma busy_db_pages:
  "length (IndexListView_queryset 100 busy_db) = 12"
  "Paginator_num_pages (IndexListView_queryset 100 busy_db) POSTS_PER_PAGE = 2"
  "map (post_pk \<circ> fst) (listing (IndexListView 100 busy_db (page_request (get_as None) 1))) =
     [12, 11, 10, 9, 8, 7, 6, 5, 4, 3]"
  "map (post_pk \<circ> fst) (listing (IndexListView 100 busy_db (page_request (get_as None) 2))) =
     [2, 1]"
  by code_simp+

theorem listing_pagination_witness:
  "wf_db blog_db \<and> travel \<in> set (categories blog_db) \<and> category_is_published travel \<and>
   alice \<in> set (users blog_db) \<and>
   length (listing (IndexListView 100 busy_db (page_request (get_as None) 1))) \<le> 10 \<and>
   length (listing (IndexListView 100 busy_db (page_request (get_as None) 1))) +
     length (listing (IndexListView 100 busy_db (page_request (get_as None) 2))) = 12 \<and>
   (\<Sum>n\<leftarrow>[1..<Suc (Paginator_num_pages (CategoryPostsListView_get_queryset 100 blog_db (slug travel))
                     POSTS_PER_PAGE)].
       length (listing (CategoryPostsListView 100 blog_db (page_request (get_as None) n)
         (slug travel)))) =
     length (CategoryPostsListView_get_queryset 100 blog_db (slug travel)) \<and>
   (\<Sum>n\<leftarrow>[1..<Suc (Paginator_num_pages (UserDetailView_post_list blog_db alice) POSTS_PER_PAGE)].
       length (listing (UserDetailView blog_db (page_request (get_as None) n) (username alice)))) =
     length (UserDetailView_post_list blog_db alice)"
proof -
  note busy = listing_pagination [where today = 100 and d = busy_db]
  note blog = listing_pagination [where now = 100 and d = blog_db and request = "get_as None"
      and c = travel and u = alice]
  have two: "[1..<Suc 2] = [1, 2]"
    by (simp add: upt_rec)
  from busy [where request = "page_request (get_as None) 1"]
  have "length (listing (IndexListView 100 busy_db (page_request (get_as None) 1))) \<le> 10"
    by blast
  moreover
  from busy [where request = "get_as None"]
  have "(\<Sum>n\<leftarrow>[1..<Suc (Paginator_num_pages (IndexListView_queryset 100 busy_db) POSTS_PER_PAGE)].
           length (listing (IndexListView 100 busy_db (page_request (get_as None) n)))) =
          length (IndexListView_queryset 100 busy_db)"
    by blast
  then have "length (listing (IndexListView 100 busy_db (page_request (get_as None) 1))) +
     length (listing (IndexListView 100 busy_db (page_request (get_as None) 2))) = 12"
    by (simp only: busy_db_pages(1,2) two list.map sum_list.Cons sum_list.Nil add_0_right)
  moreover note blog wf_blog_db blog_members(7,9) blog_names(5)
  ultimately show ?thesis
    by blast
qed

subsection \<open>The cutoff of the index\<close>

text \<open>
  Claim C9.  The index filters by \<open>today\<close>, the moment at which the class was defined;
  the moment of the request is not an input of the view.  A post whose \<open>pub_date\<close> is
  after \<open>today\<close> is in no index listing, for every database and every request, whatever
  else holds of the post.
\<close>

theorem IndexListView_cutoff:
  assumes "today < pub_date p"
  shows "p \<notin> fst ` set (IndexListView_queryset today d) \<and>
         p \<notin> fst ` set (listing (IndexListView today d request))"
proof -
  from assms have out: "p \<notin> fst ` set (IndexListView_queryset today d)"
    by (simp add: IndexListView_queryset_posts)
  moreover
  have "set (listing (IndexListView today d request)) \<subseteq> set (IndexListView_queryset today d)"
    using IndexListView_listing [of today d request]
    by (auto dest: Paginator_page_member)
  with out have "p \<notin> fst ` set (listing (IndexListView today d request))"
    by blast
  ultimately show ?thesis by simp
qed

theorem IndexListView_cutoff_witness:
  "(40::int) < pub_date post4 \<and> post4 \<in> set (posts blog_db) \<and> visible blog_db 100 post4 \<and>
   post4 \<notin> fst ` set (listing (IndexListView 40 blog_db (get_as None))) \<and>
   post4 \<in> fst ` set (listing (CategoryPostsListView 100 blog_db (get_as None) ''travel''))"
  using IndexListView_cutoff [of 40 post4 blog_db "get_as None"]
    blog_db_visible(5) blog_members(4) blog_category_listing
  by (simp add: blog_names)

subsection \<open>The listing of an unpublished category\<close>

lemma paginate_queryset_Inl:
  "paginate_queryset queryset page_size page = Inl e \<Longrightarrow> e = Http404"
  by (auto simp: paginate_queryset_def split: sum.splits page_param.splits)

text \<open>
  Claim C10.  In a well-formed database, for a category that is not published, the
  lookup of the category in \<open>get_context_data\<close> raises \<open>Http404\<close>, and so does
  \<open>get_context_data\<close> whatever the post queryset \<open>objs\<close> holds; a GET of the
  category's listing page gets \<open>HttpResponseNotFound\<close>, status 404, for every requester.
\<close>

theorem unpublished_category_not_found:
  assumes "wf_db d" and "c \<in> set (categories d)" and "\<not> category_is_published c"
  shows "get_object_or_404 (categories d)
           (\<lambda>c'. slug c' = slug c \<and> category_is_published c') = Inl Http404 \<and>
         CategoryPostsListView_get_context_data d request (slug c) objs = Inl Http404 \<and>
         (req_method request = GET \<longrightarrow>
            CategoryPostsListView now d request (slug c) = HttpResponseNotFound)"
proof -
  have look: "get_object_or_404 (categories d)
           (\<lambda>c'. slug c' = slug c \<and> category_is_published c') = Inl Http404"
    using assms(3) by (simp add: wf_category_lookup [OF assms(1,2)])
  have ctx: "CategoryPostsListView_get_context_data d request (slug c) objs = Inl Http404"
    for objs
    by (auto simp: CategoryPostsListView_get_context_data_def look
        split: sum.split dest: paginate_queryset_Inl)
  show ?thesis
    by (simp add: look ctx CategoryPostsListView_def response_for_exception_def)
qed

theorem unpublished_category_not_found_witness:
  "wf_db blog_db \<and> drafts \<in> set (categories blog_db) \<and> \<not> category_is_published drafts \<and>
   post3 \<in> set (posts blog_db) \<and> category_id post3 = category_pk drafts \<and>
   author_id post3 = user_pk bob \<and>
   CategoryPostsListView 100 blog_db (get_as (Some bob)) ''drafts'' = HttpResponseNotFound \<and>
   CategoryPostsListView 100 blog_db (get_as None) ''drafts'' = HttpResponseNotFound"
  using unpublished_category_not_found [OF wf_blog_db blog_members(10),
      of "get_as (Some bob)" "[]" 100]
    unpublished_category_not_found [OF wf_blog_db blog_members(10), of "get_as None" "[]" 100]
    wf_blog_db blog_members(3,10)
  by (simp add: blog_names blog_keys get_as_def)

subsection \<open>The profile of a user of the small database\<close>

lemma alice_posts: "{p \<in> set (posts blog_db). author_id p = user_pk alice} = {post1, post2, post5}"
  by (auto simp: blog_db_def blog_keys)

theorem profile_lists_all_posts_witness:
  "wf_db blog_db \<and> alice \<in> set (users blog_db) \<and>
   fst ` (\<Union>n \<in> {1..Paginator_num_pages (UserDetailView_post_list blog_db alice) POSTS_PER_PAGE}.
            set (listing (UserDetailView blog_db (page_request (get_as None) n) ''alice''))) =
     {post1, post2, post5} \<and>
   \<not> visible blog_db 100 post2 \<and> \<not> visible blog_db 100 post5 \<and>
   listing (UserDetailView blog_db (get_as (Some bob)) ''alice'') =
     [(post5, Some 0), (post2, Some 0), (post1, Some 1)]"
proof -
  have bob: "(get_as None)\<lparr>user := Some bob\<rparr> = get_as (Some bob)"
    by (simp add: get_as_def)
  from profile_lists_all_posts [OF wf_blog_db blog_members(7), of "get_as None" "Some bob"]
  show ?thesis
    using wf_blog_db blog_members(7) blog_db_visible(1,3) blog_profile_listing
    by (simp only: bob blog_names alice_posts simp_thms)
qed

end
